theory Spec2Isabelle
  imports Main "HOL-Library.Sublist"
begin

section \<open>Strings and JavaScript truthiness\<close>

text \<open>
  A JavaScript string is modelled as a \<open>string\<close>: the UTF-8 bytes of a well-formed string.
  The ASCII characters are the bytes without the high bit, and every other character
  is a run of bytes with it. Equality, concatenation, \<open>includes\<close> and the pattern of
  \<open>isAgentThread\<close> are on these bytes what they are on the string's code units. An
  optional value (\<open>undefined\<close> or \<open>null\<close>) is an \<open>option\<close>. A condition on a value tests
  its truthiness: an absent value, the empty string and the number 0 are falsy.
\<close>

definition truthy_string :: "string option \<Rightarrow> bool" where
  "truthy_string v = (case v of None \<Rightarrow> False | Some s \<Rightarrow> s \<noteq> [])"

definition truthy_number :: "nat option \<Rightarrow> bool" where
  "truthy_number v = (case v of None \<Rightarrow> False | Some n \<Rightarrow> n \<noteq> 0)"

text \<open>
  \<open>String.prototype.toLowerCase\<close>. An ASCII character becomes its lower-case letter, or
  stays, whatever surrounds it. What takes the place of a character outside ASCII is
  given by Unicode's case tables, which belong to the language's runtime: they are the
  parameter \<open>other\<close>, which for a string and the position of a byte with the high bit
  gives the bytes put there (the lower-cased character at its first byte and nothing at
  its further bytes; the result may depend on the whole string, as that of a final sigma
  does).
\<close>

definition toLowerCase_char :: "char \<Rightarrow> char" where
  "toLowerCase_char c =
     (case map_of (zip ''ABCDEFGHIJKLMNOPQRSTUVWXYZ'' ''abcdefghijklmnopqrstuvwxyz'') c of
        Some l \<Rightarrow> l
      | None \<Rightarrow> c)"

fun lower_from :: "(string \<Rightarrow> nat \<Rightarrow> string) \<Rightarrow> string \<Rightarrow> nat \<Rightarrow> string \<Rightarrow> string" where
  "lower_from other s i [] = []"
| "lower_from other s i (c # cs) =
     (if digit7 c then other s i else [toLowerCase_char c]) @ lower_from other s (Suc i) cs"

definition toLowerCase :: "(string \<Rightarrow> nat \<Rightarrow> string) \<Rightarrow> string \<Rightarrow> string" where
  "toLowerCase other s = lower_from other s 0 s"

text \<open>\<open>s.includes(t)\<close>: \<open>t\<close> occurs in \<open>s\<close> as a contiguous run of characters.\<close>

fun includes_str :: "string \<Rightarrow> string \<Rightarrow> bool" where
  "includes_str [] t = (t = [])"
| "includes_str (c # s) t = (prefix t (c # s) \<or> includes_str s t)"

text \<open>
  \<open>text.match(/<@[^>]+>/)\<close>. At one position the pattern reads \<open><@\<close>, then the longest
  run of characters other than \<open>>\<close>, which must not be empty, then \<open>>\<close>.
\<close>

definition mention_here :: "string \<Rightarrow> bool" where
  "mention_here s =
     (case s of
        a # b # r \<Rightarrow>
          a = CHR ''<'' \<and> b = CHR ''@'' \<and>
          takeWhile (\<lambda>c. c \<noteq> CHR ''>'') r \<noteq> [] \<and>
          dropWhile (\<lambda>c. c \<noteq> CHR ''>'') r \<noteq> []
      | _ \<Rightarrow> False)"

fun match_mention :: "string \<Rightarrow> bool" where
  "match_mention [] = False"
| "match_mention (c # s) = (mention_here (c # s) \<or> match_mention s)"

text \<open>\<open>names.join(sep)\<close>.\<close>

fun join :: "string \<Rightarrow> string list \<Rightarrow> string" where
  "join sep [] = []"
| "join sep [x] = x"
| "join sep (x # y # r) = x @ sep @ join sep (y # r)"

section \<open>Data model\<close>

text \<open>A mailbox, as the caller supplies it (\<open>Mailbox\<close> of \<open>lib/data/mailbox\<close>).\<close>

record Mailbox =
  mailbox_id :: nat
  name :: string
  slackBotToken :: "string option"
  slackBotUserId :: "string option"

text \<open>\<open>SlackMailboxInfo\<close>: the known mailboxes and the currently selected one, if any.\<close>

record SlackMailboxInfo =
  mailboxes :: "Mailbox list"
  currentMailbox :: "Mailbox option"

text \<open>
  The fields of \<open>GenericMessageEvent | AppMentionEvent\<close> that the handlers read. The
  field \<open>text\<close> of the event is \<open>event_text\<close> here; \<open>bot_profile\<close> is an object, truthy
  whenever present, of which only the presence is kept.
\<close>

record event =
  channel :: string
  ts :: string
  thread_ts :: "string option"
  event_text :: "string option"
  user :: "string option"
  bot_id :: "string option"
  bot_profile :: "unit option"

text \<open>One row of \<open>agentThreads\<close> and one row of \<open>agentMessages\<close>.\<close>

record agentThread =
  thread_id :: nat
  slackChannel :: string
  threadTs :: string
  mailboxId :: "nat option"

record agentMessage =
  message_id :: nat
  agentThreadId :: nat
  role :: string
  content :: string
  message_slackChannel :: string
  messageTs :: string

text \<open>One message of a \<open>conversations.replies\<close> response.\<close>

record slack_message =
  message_user :: "string option"
  message_text :: "string option"

text \<open>The payload of the job \<open>slack/agent.message\<close>.\<close>

record job_payload =
  slackUserId :: "string option"
  statusMessageTs :: string
  job_agentThreadId :: nat

section \<open>Collaborators\<close>

text \<open>
  Every call the handlers make to the persistence layer, to the chat platform's client
  and to the job trigger is recorded, in order, with its arguments. A
  \<open>ChatPostMessage\<close> and a \<open>ConversationsReplies\<close> carry the credential their
  \<open>WebClient\<close> was built with.
\<close>

datatype call =
    FindFirstThread string string
  | InsertThread string string
  | InsertMessage nat string string string string
  | UpdateThread nat nat
  | ChatPostMessage string string string string
  | ConversationsReplies string string string nat
  | TriggerEvent string job_payload

record database =
  agentThreads :: "agentThread list"
  agentMessages :: "agentMessage list"

record world =
  db :: database
  calls :: "call list"

text \<open>
  What lies outside the repository: the \<open>ts\<close> of the platform's response to a posted
  message (absent when the response has none) and the \<open>messages\<close> of its response to a
  fetch of replies, each as a function of the calls made so far, the answered one
  last; and the constant \<open>WHICH_MAILBOX_MESSAGE\<close>, which the handlers import from
  \<open>findMailboxForEvent\<close>; and the runtime's lower-casing of the characters outside
  ASCII, the parameter of \<open>toLowerCase\<close>. A call answers: a collaborator that rejects is
  outside the model.
\<close>

record env =
  postMessage_ts :: "call list \<Rightarrow> string option"
  replies_messages :: "call list \<Rightarrow> slack_message list option"
  WHICH_MAILBOX_MESSAGE :: string
  lower_other :: "string \<Rightarrow> nat \<Rightarrow> string"

datatype error = AssertDefinedFailed | TakeUniqueFailed | Error string

definition record_call :: "call \<Rightarrow> world \<Rightarrow> world" where
  "record_call c w = w\<lparr>calls := calls w @ [c]\<rparr>"

text \<open>
  Modelled from the spec: \<open>assertDefined\<close> of \<open>components/utils/assert\<close>, which is not
  among the sources. A missing required credential is a fatal precondition failure,
  raised immediately.
\<close>

definition assertDefined :: "'a option \<Rightarrow> error + 'a" where
  "assertDefined v = (case v of None \<Rightarrow> Inl AssertDefinedFailed | Some x \<Rightarrow> Inr x)"

text \<open>
  Modelled from the spec: \<open>takeUniqueOrThrow\<close> of \<open>components/utils/arrays\<close>, which is
  not among the sources. Creating the Thread yields the one created row; any other
  number of rows is a failure.
\<close>

definition takeUniqueOrThrow :: "'a list \<Rightarrow> error + 'a" where
  "takeUniqueOrThrow rows = (case rows of [x] \<Rightarrow> Inr x | _ \<Rightarrow> Inl TakeUniqueFailed)"

subsection \<open>Persistence\<close>

text \<open>An identity column: the new row's id is above every id of the table, and not 0.\<close>

definition new_id :: "nat list \<Rightarrow> nat" where
  "new_id ids = Suc (fold max ids 0)"

text \<open>\<open>db.query.agentThreads.findFirst({ where: and(eq(slackChannel, c), eq(threadTs, t)) })\<close>\<close>

definition findFirstThread :: "string \<Rightarrow> string \<Rightarrow> world \<Rightarrow> agentThread option \<times> world" where
  "findFirstThread c t w =
     (find (\<lambda>r. slackChannel r = c \<and> threadTs r = t) (agentThreads (db w)),
      record_call (FindFirstThread c t) w)"

text \<open>\<open>db.insert(agentThreads).values({ slackChannel, threadTs }).returning()\<close>\<close>

definition insertThread :: "string \<Rightarrow> string \<Rightarrow> world \<Rightarrow> agentThread list \<times> world" where
  "insertThread c t w =
     (let row = \<lparr>thread_id = new_id (map thread_id (agentThreads (db w))),
                 slackChannel = c, threadTs = t, mailboxId = None\<rparr>
      in ([row],
          record_call (InsertThread c t)
            (w\<lparr>db := (db w)\<lparr>agentThreads := agentThreads (db w) @ [row]\<rparr>\<rparr>)))"

text \<open>
  Modelled from the spec: the uniqueness constraint of \<open>agentMessages\<close>, whose schema is
  not among the sources. A Message is keyed by (thread id, message timestamp).
\<close>

definition message_conflict :: "nat \<Rightarrow> string \<Rightarrow> agentMessage \<Rightarrow> bool" where
  "message_conflict tid mts r = (agentThreadId r = tid \<and> messageTs r = mts)"

text \<open>
  \<open>db.insert(agentMessages).values({ ... }).onConflictDoNothing().returning()\<close>: the rows
  created, none on a conflict.
\<close>

definition insertMessage ::
  "nat \<Rightarrow> string \<Rightarrow> string \<Rightarrow> string \<Rightarrow> string \<Rightarrow> world \<Rightarrow> agentMessage list \<times> world" where
  "insertMessage tid rl txt c mts w =
     (let w' = record_call (InsertMessage tid rl txt c mts) w
      in if list_ex (message_conflict tid mts) (agentMessages (db w)) then ([], w')
         else
           (let row = \<lparr>message_id = new_id (map message_id (agentMessages (db w))),
                       agentThreadId = tid, role = rl, content = txt,
                       message_slackChannel = c, messageTs = mts\<rparr>
            in ([row], w'\<lparr>db := (db w)\<lparr>agentMessages := agentMessages (db w) @ [row]\<rparr>\<rparr>)))"

text \<open>\<open>db.update(agentThreads).set({ mailboxId }).where(eq(agentThreads.id, id))\<close>\<close>

definition updateThread :: "nat \<Rightarrow> nat \<Rightarrow> world \<Rightarrow> world" where
  "updateThread i m w =
     record_call (UpdateThread i m)
       (w\<lparr>db := (db w)\<lparr>agentThreads :=
          map (\<lambda>r. if thread_id r = i then r\<lparr>mailboxId := Some m\<rparr> else r)
            (agentThreads (db w))\<rparr>\<rparr>)"

subsection \<open>Chat platform and job trigger\<close>

text \<open>\<open>client.chat.postMessage({ channel, thread_ts, text })\<close>, giving the response's \<open>ts\<close>.\<close>

definition chat_postMessage ::
  "env \<Rightarrow> string \<Rightarrow> string \<Rightarrow> string \<Rightarrow> string \<Rightarrow> world \<Rightarrow> string option \<times> world" where
  "chat_postMessage e token c t txt w =
     (let w' = record_call (ChatPostMessage token c t txt) w
      in (postMessage_ts e (calls w'), w'))"

text \<open>\<open>client.conversations.replies({ channel, ts, limit })\<close>, giving the response's \<open>messages\<close>.\<close>

definition conversations_replies ::
  "env \<Rightarrow> string \<Rightarrow> string \<Rightarrow> string \<Rightarrow> nat \<Rightarrow> world \<Rightarrow> slack_message list option \<times> world" where
  "conversations_replies e token c t limit w =
     (let w' = record_call (ConversationsReplies token c t limit) w
      in (replies_messages e (calls w'), w'))"

definition triggerEvent :: "string \<Rightarrow> job_payload \<Rightarrow> world \<Rightarrow> world" where
  "triggerEvent job p w = record_call (TriggerEvent job p) w"

section \<open>The handlers of \<open>lib/slack/agent/handleMessages.ts\<close>\<close>

text \<open>\<open>event.thread_ts ?? event.ts\<close>: the root of the event's thread.\<close>

definition thread_root :: "event \<Rightarrow> string" where
  "thread_root ev = (case thread_ts ev of Some t \<Rightarrow> t | None \<Rightarrow> ts ev)"

text \<open>
  \<open>postThinkingMessage\<close>: posts the placeholder and returns its \<open>ts\<close>; a response
  without a truthy \<open>ts\<close> throws.
\<close>

definition postThinkingMessage ::
  "env \<Rightarrow> string \<Rightarrow> string \<Rightarrow> string \<Rightarrow> world \<Rightarrow> (error + string) \<times> world" where
  "postThinkingMessage en token c root w =
     (let (message_ts, w') = chat_postMessage en token c root ''_Thinking..._'' w
      in case message_ts of
           None \<Rightarrow> (Inl (Error ''Failed to post initial message''), w')
         | Some t \<Rightarrow>
             if t = [] then (Inl (Error ''Failed to post initial message''), w')
             else (Inr t, w'))"

text \<open>
  \<open>askWhichMailbox\<close>: the client is built with the first mailbox's credential
  (\<open>mailboxes[0]?.slackBotToken\<close>, asserted to be defined) before the prompt is posted.
\<close>

definition askWhichMailbox :: "env \<Rightarrow> event \<Rightarrow> Mailbox list \<Rightarrow> world \<Rightarrow> (error + unit) \<times> world" where
  "askWhichMailbox en ev mbs w =
     (case assertDefined (case mbs of [] \<Rightarrow> None | m # _ \<Rightarrow> slackBotToken m) of
        Inl err \<Rightarrow> (Inl err, w)
      | Inr token \<Rightarrow>
          (Inr (),
           snd (chat_postMessage en token (channel ev) (thread_root ev)
                  (WHICH_MAILBOX_MESSAGE en @ '' ('' @ join ''/'' (map name mbs) @ '')'') w)))"

text \<open>
  \<open>findMentionedMailbox\<close>: with more than one mailbox, the first mailbox of the list,
  other than the current one by id, whose lower-cased name the lower-cased text includes.
  The environment is passed for the runtime's \<open>toLowerCase\<close>.
\<close>

definition findMentionedMailbox ::
  "env \<Rightarrow> string \<Rightarrow> Mailbox list \<Rightarrow> Mailbox \<Rightarrow> Mailbox option" where
  "findMentionedMailbox en messageText mbs current =
     (if length mbs \<le> 1 then None
      else
        find
          (\<lambda>m. mailbox_id m \<noteq> mailbox_id current \<and>
               includes_str (toLowerCase (lower_other en) messageText)
                 (toLowerCase (lower_other en) (name m)))
          mbs)"

definition postMailboxSwitchMessage ::
  "env \<Rightarrow> string \<Rightarrow> string \<Rightarrow> string \<Rightarrow> string \<Rightarrow> world \<Rightarrow> world" where
  "postMailboxSwitchMessage en token c root mailboxName w =
     snd (chat_postMessage en token c root
            (''_Switched to the '' @ mailboxName @ '' mailbox_'') w)"

text \<open>
  \<open>handleMessage\<close>, in the order of its statements. Each step below is a run of its
  lines; the result of a step is the raised error or its value, with the world as the
  calls made up to there left it: a raise undoes nothing.
\<close>

text \<open>Line 12: \<open>event.bot_id || event.bot_profile\<close>.\<close>

definition bot_marker :: "event \<Rightarrow> bool" where
  "bot_marker ev = (truthy_string (bot_id ev) \<or> bot_profile ev \<noteq> None)"

text \<open>Lines 14 to 27: the existing Thread of (channel, root), or a newly inserted one.\<close>

definition resolveThread :: "event \<Rightarrow> world \<Rightarrow> (error + agentThread) \<times> world" where
  "resolveThread ev w0 =
     (let (existingThread, w1) = findFirstThread (channel ev) (thread_root ev) w0
      in case existingThread of
           Some t \<Rightarrow> (Inr t, w1)
         | None \<Rightarrow>
             (let (rows, w2) = insertThread (channel ev) (thread_root ev) w1
              in (takeUniqueOrThrow rows, w2)))"

text \<open>
  Lines 29 to 45: with a truthy text, the insert of the Message; \<open>message\<close> is the first
  created row, absent when the insert created none or there was no text.
\<close>

definition recordMessage :: "event \<Rightarrow> agentThread \<Rightarrow> world \<Rightarrow> agentMessage option \<times> world" where
  "recordMessage ev agentThread w =
     (case event_text ev of
        None \<Rightarrow> (None, w)
      | Some txt \<Rightarrow>
          if txt = [] then (None, w)
          else
            (let (rows, w') =
                   insertMessage (thread_id agentThread) ''user'' txt (channel ev) (ts ev) w
             in (case rows of [] \<Rightarrow> None | createdMessage # _ \<Rightarrow> Some createdMessage, w')))"

text \<open>
  Line 51: \<open>mailboxes.find(({ id }) => id === agentThread.mailboxId) ?? currentMailbox\<close>.
\<close>

definition effective_mailbox :: "SlackMailboxInfo \<Rightarrow> agentThread \<Rightarrow> Mailbox option" where
  "effective_mailbox mailboxInfo agentThread =
     (case find (\<lambda>m. Some (mailbox_id m) = mailboxId agentThread) (mailboxes mailboxInfo) of
        Some m \<Rightarrow> Some m
      | None \<Rightarrow> currentMailbox mailboxInfo)"

text \<open>
  Lines 59 to 71: the binding is written when the Thread has no truthy mailbox id or a
  mailbox was mentioned; the notice follows when a mailbox was mentioned and there is
  more than one mailbox.
\<close>

definition bindMailbox ::
  "env \<Rightarrow> event \<Rightarrow> SlackMailboxInfo \<Rightarrow> agentThread \<Rightarrow> Mailbox \<Rightarrow> Mailbox option \<Rightarrow> world
     \<Rightarrow> (error + unit) \<times> world" where
  "bindMailbox en ev mailboxInfo agentThread mailbox mentionedMailbox w =
     (if \<not> truthy_number (mailboxId agentThread) \<or> mentionedMailbox \<noteq> None then
        (let mailboxToUse = (case mentionedMailbox of Some m \<Rightarrow> m | None \<Rightarrow> mailbox);
             w' = updateThread (thread_id agentThread) (mailbox_id mailboxToUse) w
         in if mentionedMailbox \<noteq> None \<and> length (mailboxes mailboxInfo) > 1 then
              (case assertDefined (slackBotToken mailboxToUse) of
                 Inl err \<Rightarrow> (Inl err, w')
               | Inr token \<Rightarrow>
                   (Inr (),
                    postMailboxSwitchMessage en token (channel ev) (thread_root ev)
                      (name mailboxToUse) w'))
            else (Inr (), w'))
      else (Inr (), w))"

text \<open>
  Lines 73 to 79: the client of \<open>mailbox\<close>, the placeholder, whose \<open>ts\<close> is evaluated
  before \<open>triggerEvent\<close> is called, and the job.
\<close>

definition enqueueJob ::
  "env \<Rightarrow> event \<Rightarrow> agentThread \<Rightarrow> Mailbox \<Rightarrow> world \<Rightarrow> (error + unit) \<times> world" where
  "enqueueJob en ev agentThread mailbox w =
     (case assertDefined (slackBotToken mailbox) of
        Inl err \<Rightarrow> (Inl err, w)
      | Inr token \<Rightarrow>
          (case postThinkingMessage en token (channel ev) (thread_root ev) w of
             (Inl err, w') \<Rightarrow> (Inl err, w')
           | (Inr status_ts, w') \<Rightarrow>
               (Inr (),
                triggerEvent ''slack/agent.message''
                  \<lparr>slackUserId = user ev, statusMessageTs = status_ts,
                   job_agentThreadId = thread_id agentThread\<rparr>
                  w')))"

definition handleMessage ::
  "env \<Rightarrow> event \<Rightarrow> SlackMailboxInfo \<Rightarrow> world \<Rightarrow> (error + unit) \<times> world" where
  "handleMessage en ev mailboxInfo w0 =
     (if bot_marker ev then (Inr (), w0)
      else
        case resolveThread ev w0 of
          (Inl err, w1) \<Rightarrow> (Inl err, w1)
        | (Inr agentThread, w1) \<Rightarrow>
            let (message, w2) = recordMessage ev agentThread w1 in
            case (message, event_text ev) of
              (Some _, Some txt) \<Rightarrow>
                if txt = [] then (Inr (), w2)
                else
                  (case effective_mailbox mailboxInfo agentThread of
                     None \<Rightarrow> askWhichMailbox en ev (mailboxes mailboxInfo) w2
                   | Some mailbox \<Rightarrow>
                       let mentionedMailbox =
                             findMentionedMailbox en txt (mailboxes mailboxInfo) mailbox
                       in
                       case bindMailbox en ev mailboxInfo agentThread mailbox
                              mentionedMailbox w2 of
                         (Inl err, w3) \<Rightarrow> (Inl err, w3)
                       | (Inr _, w3) \<Rightarrow> enqueueJob en ev agentThread mailbox w3)
            | _ \<Rightarrow> (Inr (), w2))"

text \<open>
  \<open>isAgentThread\<close> (the spec's \<open>isDirectedAtAssistant\<close>). With no first mailbox,
  \<open>mailbox?.slackBotToken\<close> is undefined and the first guard returns false.
\<close>

definition isAgentThread :: "env \<Rightarrow> event \<Rightarrow> SlackMailboxInfo \<Rightarrow> world \<Rightarrow> bool \<times> world" where
  "isAgentThread en ev mailboxInfo w =
     (case mailboxes mailboxInfo of
        [] \<Rightarrow> (False, w)
      | mailbox # _ \<Rightarrow>
          (case (slackBotToken mailbox, slackBotUserId mailbox, thread_ts ev) of
             (Some token, Some botUserId, Some root) \<Rightarrow>
               if token = [] \<or> botUserId = [] \<or> root = [] \<or> root = ts ev
               then (False, w)
               else if (case event_text ev of
                          Some txt \<Rightarrow> includes_str (toLowerCase (lower_other en) txt) ''(aside)''
                        | None \<Rightarrow> False)
               then (False, w)
               else
                 (let (response, w') =
                        conversations_replies en token (channel ev) root 50 w;
                      messages = (case response of None \<Rightarrow> [] | Some ms \<Rightarrow> ms)
                  in if list_ex
                          (\<lambda>m. message_user m \<noteq> Some botUserId \<and>
                               (case message_text m of
                                  Some txt \<Rightarrow> includes_str txt (''<@'' @ botUserId @ ''>'')
                                | None \<Rightarrow> False))
                          messages
                     then (True, w')
                     else if (case messages of
                                [] \<Rightarrow> False
                              | m0 # _ \<Rightarrow> message_user m0 = Some botUserId)
                     then
                       (\<not> (case messages of
                              _ # m1 # _ \<Rightarrow>
                                (case message_text m1 of
                                   Some txt \<Rightarrow> match_mention txt
                                 | None \<Rightarrow> False)
                            | _ \<Rightarrow> False),
                        w')
                     else (False, w'))
           | _ \<Rightarrow> (False, w)))"

section \<open>Observing a run\<close>

text \<open>The calls made between the world \<open>w\<close> and the later world \<open>w'\<close>.\<close>

definition calls_since :: "world \<Rightarrow> world \<Rightarrow> call list" where
  "calls_since w w' = drop (length (calls w)) (calls w')"

text \<open>The calls to the persistence layer.\<close>

fun persistence_call :: "call \<Rightarrow> bool" where
  "persistence_call (FindFirstThread _ _) = True"
| "persistence_call (InsertThread _ _) = True"
| "persistence_call (InsertMessage _ _ _ _ _) = True"
| "persistence_call (UpdateThread _ _) = True"
| "persistence_call _ = False"

text \<open>The placeholder post, the enqueueing of the job, and the calls that are neither.\<close>

fun placeholder_post :: "call \<Rightarrow> bool" where
  "placeholder_post (ChatPostMessage _ _ _ body) = (body = ''_Thinking..._'')"
| "placeholder_post _ = False"

fun job_call :: "call \<Rightarrow> bool" where
  "job_call (TriggerEvent _ _) = True"
| "job_call _ = False"

definition quiet :: "call \<Rightarrow> bool" where
  "quiet c = (\<not> placeholder_post c \<and> \<not> job_call c)"

text \<open>
  A Message of the Thread that (channel, root) resolves to, with the timestamp \<open>mts\<close>,
  is recorded.
\<close>

definition recorded :: "string \<Rightarrow> string \<Rightarrow> string \<Rightarrow> world \<Rightarrow> bool" where
  "recorded c root mts w =
     (case find (\<lambda>r. slackChannel r = c \<and> threadTs r = root) (agentThreads (db w)) of
        None \<Rightarrow> False
      | Some t \<Rightarrow> list_ex (message_conflict (thread_id t) mts) (agentMessages (db w)))"

text \<open>Deliveries handled one after the other, whatever each one's outcome.\<close>

fun handle_all :: "(env \<times> event \<times> SlackMailboxInfo) list \<Rightarrow> world \<Rightarrow> world" where
  "handle_all [] w = w"
| "handle_all ((en, ev, mailboxInfo) # rest) w =
     handle_all rest (snd (handleMessage en ev mailboxInfo w))"

section \<open>Concrete inputs\<close>

text \<open>Two mailboxes of one workspace, an answering platform, and an empty database.\<close>

definition ex_support :: Mailbox where
  "ex_support =
     \<lparr>mailbox_id = 1, name = ''Support'', slackBotToken = Some ''xoxb-support'',
      slackBotUserId = Some ''U0BOT''\<rparr>"

definition ex_sales :: Mailbox where
  "ex_sales =
     \<lparr>mailbox_id = 2, name = ''Sales'', slackBotToken = Some ''xoxb-sales'',
      slackBotUserId = Some ''U0BOT''\<rparr>"

definition ex_env :: env where
  "ex_env =
     \<lparr>postMessage_ts = (\<lambda>_. Some ''200''), replies_messages = (\<lambda>_. None),
      WHICH_MAILBOX_MESSAGE = ''Which mailbox?'',
      lower_other = (\<lambda>s i. [s ! i])\<rparr>"

definition ex_event :: event where
  "ex_event =
     \<lparr>channel = ''C1'', ts = ''100'', thread_ts = None, event_text = Some ''hi'',
      user = Some ''U1'', bot_id = None, bot_profile = None\<rparr>"

definition ex_world :: world where
  "ex_world = \<lparr>db = \<lparr>agentThreads = [], agentMessages = []\<rparr>, calls = []\<rparr>"

text \<open>A reply in the thread rooted at \<open>100\<close>, and a platform that answers a fetch with \<open>ms\<close>.\<close>

definition ex_reply :: event where
  "ex_reply =
     \<lparr>channel = ''C1'', ts = ''130'', thread_ts = Some ''100'', event_text = Some ''any news?'',
      user = Some ''U1'', bot_id = None, bot_profile = None\<rparr>"

definition ex_thread_env :: "slack_message list \<Rightarrow> env" where
  "ex_thread_env ms =
     \<lparr>postMessage_ts = (\<lambda>_. Some ''200''), replies_messages = (\<lambda>_. Some ms),
      WHICH_MAILBOX_MESSAGE = ''Which mailbox?'',
      lower_other = (\<lambda>s i. [s ! i])\<rparr>"

definition ex_one_mailbox :: SlackMailboxInfo where
  "ex_one_mailbox = \<lparr>mailboxes = [ex_support], currentMailbox = Some ex_support\<rparr>"

text \<open>Both mailboxes, with none selected and with the first selected.\<close>

definition ex_unselected :: SlackMailboxInfo where
  "ex_unselected = \<lparr>mailboxes = [ex_support, ex_sales], currentMailbox = None\<rparr>"

definition ex_selected :: SlackMailboxInfo where
  "ex_selected = \<lparr>mailboxes = [ex_support, ex_sales], currentMailbox = Some ex_support\<rparr>"

text \<open>
  A platform whose responses carry no \<open>ts\<close>; an event that names the second mailbox,
  as a first message and as a reply; and a database whose Thread is bound to the first.
\<close>

definition ex_silent_env :: env where
  "ex_silent_env =
     \<lparr>postMessage_ts = (\<lambda>_. None), replies_messages = (\<lambda>_. None),
      WHICH_MAILBOX_MESSAGE = ''Which mailbox?'',
      lower_other = (\<lambda>s i. [s ! i])\<rparr>"

definition ex_mention :: event where
  "ex_mention = ex_event\<lparr>event_text := Some ''ask SALES please''\<rparr>"

definition ex_followup :: event where
  "ex_followup =
     \<lparr>channel = ''C1'', ts = ''130'', thread_ts = Some ''100'',
      event_text = Some ''ask SALES please'', user = Some ''U1'', bot_id = None,
      bot_profile = None\<rparr>"

definition ex_bound_world :: world where
  "ex_bound_world =
     \<lparr>db = \<lparr>agentThreads =
               [\<lparr>thread_id = 1, slackChannel = ''C1'', threadTs = ''100'', mailboxId = Some 1\<rparr>],
             agentMessages =
               [\<lparr>message_id = 1, agentThreadId = 1, role = ''user'', content = ''hi'',
                 message_slackChannel = ''C1'', messageTs = ''100''\<rparr>]\<rparr>,
      calls = []\<rparr>"

text \<open>
  The inputs above are ASCII, so their lower-casing never consults \<open>lower_other\<close>. A
  runtime that knows one character outside ASCII: the capital E with acute accent, the
  bytes C3 89, whose lower case is the bytes C3 A9; and a mailbox named with it.
\<close>

definition ex_latin_lower :: "string \<Rightarrow> nat \<Rightarrow> string" where
  "ex_latin_lower s i =
     (if s ! i = CHR 0xC3 \<and> Suc i < length s \<and> s ! Suc i = CHR 0x89
      then [CHR 0xC3, CHR 0xA9]
      else if 0 < i \<and> s ! (i - 1) = CHR 0xC3 \<and> s ! i = CHR 0x89 then []
      else [s ! i])"

definition ex_emile :: Mailbox where
  "ex_emile =
     \<lparr>mailbox_id = 2, name = [CHR 0xC3, CHR 0x89, CHR ''m'', CHR ''i'', CHR ''l'', CHR ''e''],
      slackBotToken = Some ''xoxb-emile'', slackBotUserId = Some ''U0BOT''\<rparr>"

section \<open>Facts about strings\<close>

lemma includes_str_sublist: "includes_str s t = sublist t s"
  by (induction s) (simp_all add: sublist_Cons_right)

lemma lower_from_append:
  "lower_from other whole i (a @ b)
     = lower_from other whole i a @ lower_from other whole (i + length a) b"
  by (induction a arbitrary: i) simp_all


lemma mention_here_iff:
  "mention_here s =
     (\<exists>mid post. s = ''<@'' @ mid @ ''>'' @ post \<and> mid \<noteq> [] \<and> CHR ''>'' \<notin> set mid)"
proof
  assume "mention_here s"
  then obtain r where s: "s = CHR ''<'' # CHR ''@'' # r"
    and t: "takeWhile (\<lambda>c. c \<noteq> CHR ''>'') r \<noteq> []"
    and d: "dropWhile (\<lambda>c. c \<noteq> CHR ''>'') r \<noteq> []"
    by (auto simp: mention_here_def split: list.splits)
  let ?mid = "takeWhile (\<lambda>c. c \<noteq> CHR ''>'') r"
  let ?rest = "dropWhile (\<lambda>c. c \<noteq> CHR ''>'') r"
  from d have "hd ?rest = CHR ''>''"
    using hd_dropWhile [of "\<lambda>c. c \<noteq> CHR ''>''" r] by simp
  with d have "?rest = CHR ''>'' # tl ?rest"
    by (cases ?rest) simp_all
  then have "r = ?mid @ ''>'' @ tl ?rest"
    using takeWhile_dropWhile_id [of "\<lambda>c. c \<noteq> CHR ''>''" r] by simp
  moreover have "CHR ''>'' \<notin> set ?mid"
    using set_takeWhileD by fastforce
  ultimately show "\<exists>mid post. s = ''<@'' @ mid @ ''>'' @ post \<and> mid \<noteq> [] \<and> CHR ''>'' \<notin> set mid"
    using s t by auto
next
  assume "\<exists>mid post. s = ''<@'' @ mid @ ''>'' @ post \<and> mid \<noteq> [] \<and> CHR ''>'' \<notin> set mid"
  then obtain mid post where s: "s = ''<@'' @ mid @ ''>'' @ post"
    and m: "mid \<noteq> []" and n: "CHR ''>'' \<notin> set mid"
    by blast
  from n have a: "\<forall>c\<in>set mid. c \<noteq> CHR ''>''" by auto
  have "takeWhile (\<lambda>c. c \<noteq> CHR ''>'') (mid @ CHR ''>'' # post) = mid"
    using a by (induction mid) simp_all
  moreover have "dropWhile (\<lambda>c. c \<noteq> CHR ''>'') (mid @ CHR ''>'' # post) = CHR ''>'' # post"
    using a by (induction mid) simp_all
  ultimately show "mention_here s"
    using s m by (simp add: mention_here_def)
qed

lemma match_mention_iff:
  "match_mention s = (\<exists>pre rest. s = pre @ rest \<and> mention_here rest)"
proof (induction s)
  case Nil
  then show ?case by (simp add: mention_here_def)
next
  case (Cons c s)
  show ?case
  proof
    assume "match_mention (c # s)"
    then consider "mention_here (c # s)" | "match_mention s" by auto
    then show "\<exists>pre rest. c # s = pre @ rest \<and> mention_here rest"
    proof cases
      case 1
      then have "c # s = [] @ (c # s) \<and> mention_here (c # s)" by simp
      then show ?thesis by blast
    next
      case 2
      with Cons.IH obtain pre rest where "s = pre @ rest" "mention_here rest" by blast
      then have "c # s = (c # pre) @ rest \<and> mention_here rest" by simp
      then show ?thesis by blast
    qed
  next
    assume "\<exists>pre rest. c # s = pre @ rest \<and> mention_here rest"
    then obtain pre rest where e: "c # s = pre @ rest" and h: "mention_here rest" by blast
    show "match_mention (c # s)"
    proof (cases pre)
      case Nil
      with e have "rest = c # s" by simp
      with h show ?thesis by simp
    next
      case (Cons a pre')
      with e have "s = pre' @ rest" by simp
      with h Cons.IH show ?thesis by auto
    qed
  qed
qed

lemma match_mention_token:
  "match_mention s =
     (\<exists>pre mid post. s = pre @ ''<@'' @ mid @ ''>'' @ post \<and> mid \<noteq> [] \<and> CHR ''>'' \<notin> set mid)"
  unfolding match_mention_iff mention_here_iff by (auto; blast)

section \<open>The steps of \<open>handleMessage\<close>\<close>

lemmas eval_defs =
  truthy_string_def truthy_number_def toLowerCase_def toLowerCase_char_def mention_here_def
  thread_root_def record_call_def assertDefined_def takeUniqueOrThrow_def new_id_def
  findFirstThread_def insertThread_def message_conflict_def insertMessage_def updateThread_def
  chat_postMessage_def conversations_replies_def triggerEvent_def postThinkingMessage_def
  askWhichMailbox_def findMentionedMailbox_def postMailboxSwitchMessage_def bot_marker_def
  resolveThread_def recordMessage_def effective_mailbox_def bindMailbox_def enqueueJob_def
  ex_support_def ex_sales_def ex_env_def ex_event_def ex_world_def Let_def
  ex_silent_env_def ex_mention_def ex_followup_def ex_bound_world_def
  ex_selected_def ex_unselected_def ex_one_mailbox_def

lemma resolveThread_found:
  "find (\<lambda>r. slackChannel r = channel ev \<and> threadTs r = thread_root ev) (agentThreads (db w)) = Some t
   \<Longrightarrow> resolveThread ev w = (Inr t, record_call (FindFirstThread (channel ev) (thread_root ev)) w)"
  by (simp add: resolveThread_def findFirstThread_def)

lemma resolveThread_total: "\<exists>t w'. resolveThread ev w = (Inr t, w')"
  by (simp add: resolveThread_def findFirstThread_def insertThread_def takeUniqueOrThrow_def Let_def
      split: option.splits)

lemma recordMessage_no_text:
  "\<not> truthy_string (event_text ev) \<Longrightarrow> recordMessage ev t w = (None, w)"
  by (simp add: recordMessage_def truthy_string_def split: option.splits)

lemma recordMessage_conflict:
  "event_text ev = Some txt \<Longrightarrow> txt \<noteq> [] \<Longrightarrow>
   list_ex (message_conflict (thread_id t) (ts ev)) (agentMessages (db w)) \<Longrightarrow>
   recordMessage ev t w =
     (None, record_call (InsertMessage (thread_id t) ''user'' txt (channel ev) (ts ev)) w)"
  by (simp add: recordMessage_def insertMessage_def Let_def)

lemma recordMessage_new:
  "event_text ev = Some txt \<Longrightarrow> txt \<noteq> [] \<Longrightarrow>
   \<not> list_ex (message_conflict (thread_id t) (ts ev)) (agentMessages (db w)) \<Longrightarrow>
   \<exists>row w'. recordMessage ev t w = (Some row, w') \<and>
     calls w' = calls w @ [InsertMessage (thread_id t) ''user'' txt (channel ev) (ts ev)] \<and>
     agentThreads (db w') = agentThreads (db w) \<and>
     agentMessages (db w') = agentMessages (db w) @ [row] \<and>
     agentThreadId row = thread_id t \<and> messageTs row = ts ev"
  by (simp add: recordMessage_def insertMessage_def Let_def record_call_def)

lemma handleMessage_no_text:
  "\<not> bot_marker ev \<Longrightarrow> \<not> truthy_string (event_text ev) \<Longrightarrow>
   resolveThread ev w = (Inr t, w1) \<Longrightarrow> handleMessage en ev mi w = (Inr (), w1)"
  by (simp add: handleMessage_def recordMessage_no_text split: option.splits)

lemma handleMessage_duplicate:
  "\<not> bot_marker ev \<Longrightarrow> event_text ev = Some txt \<Longrightarrow> txt \<noteq> [] \<Longrightarrow>
   resolveThread ev w = (Inr t, w1) \<Longrightarrow>
   list_ex (message_conflict (thread_id t) (ts ev)) (agentMessages (db w1)) \<Longrightarrow>
   handleMessage en ev mi w =
     (Inr (), record_call (InsertMessage (thread_id t) ''user'' txt (channel ev) (ts ev)) w1)"
  by (simp add: handleMessage_def recordMessage_conflict)

lemma handleMessage_routed:
  "\<not> bot_marker ev \<Longrightarrow> event_text ev = Some txt \<Longrightarrow> txt \<noteq> [] \<Longrightarrow>
   resolveThread ev w = (Inr t, w1) \<Longrightarrow>
   recordMessage ev t w1 = (Some row, w2) \<Longrightarrow>
   handleMessage en ev mi w =
     (case effective_mailbox mi t of
        None \<Rightarrow> askWhichMailbox en ev (mailboxes mi) w2
      | Some mailbox \<Rightarrow>
          (case bindMailbox en ev mi t mailbox (findMentionedMailbox en txt (mailboxes mi) mailbox) w2 of
             (Inl err, w3) \<Rightarrow> (Inl err, w3)
           | (Inr _, w3) \<Rightarrow> enqueueJob en ev t mailbox w3))"
  by (simp add: handleMessage_def Let_def split: option.splits)

lemma resolveThread_calls:
  assumes "resolveThread ev w = (r, w1)"
  shows "\<exists>pre. calls w1 = calls w @ pre \<and> list_all persistence_call pre"
  using assms
  by (auto simp: resolveThread_def findFirstThread_def insertThread_def record_call_def Let_def
      split: option.splits)

lemma recordMessage_calls:
  assumes "recordMessage ev t w = (msg, w')"
  shows "\<exists>pre. calls w' = calls w @ pre \<and> list_all persistence_call pre"
  using assms
  by (auto simp: recordMessage_def insertMessage_def record_call_def Let_def
      split: option.splits if_splits)

lemma askWhichMailbox_credential:
  "mbs = m # rest \<Longrightarrow> slackBotToken m = Some token \<Longrightarrow>
   askWhichMailbox en ev mbs w =
     (Inr (),
      w\<lparr>calls := calls w @
         [ChatPostMessage token (channel ev) (thread_root ev)
            (WHICH_MAILBOX_MESSAGE en @ '' ('' @ join ''/'' (map name mbs) @ '')'')]\<rparr>)"
  by (simp add: askWhichMailbox_def assertDefined_def chat_postMessage_def record_call_def)

lemma askWhichMailbox_no_credential:
  "mbs = [] \<or> (\<exists>m rest. mbs = m # rest \<and> slackBotToken m = None) \<Longrightarrow>
   askWhichMailbox en ev mbs w = (Inl AssertDefinedFailed, w)"
  by (auto simp: askWhichMailbox_def assertDefined_def)

lemma bindMailbox_unchanged:
  "truthy_number (mailboxId t) \<Longrightarrow> bindMailbox en ev mi t mb None w = (Inr (), w)"
  by (simp add: bindMailbox_def)

lemma bindMailbox_first:
  "\<not> truthy_number (mailboxId t) \<Longrightarrow>
   bindMailbox en ev mi t mb None w =
     (Inr (), updateThread (thread_id t) (mailbox_id mb) w)"
  by (simp add: bindMailbox_def)

lemma bindMailbox_mentioned:
  "1 < length (mailboxes mi) \<Longrightarrow>
   bindMailbox en ev mi t mb (Some m) w =
     (case slackBotToken m of
        None \<Rightarrow> (Inl AssertDefinedFailed, updateThread (thread_id t) (mailbox_id m) w)
      | Some token \<Rightarrow>
          (Inr (),
           record_call
             (ChatPostMessage token (channel ev) (thread_root ev)
                (''_Switched to the '' @ name m @ '' mailbox_''))
             (updateThread (thread_id t) (mailbox_id m) w)))"
  by (simp add: bindMailbox_def assertDefined_def postMailboxSwitchMessage_def
      chat_postMessage_def Let_def split: option.splits)

lemma findMentionedMailbox_Some:
  assumes "findMentionedMailbox en txt mbs current = Some m"
  shows "1 < length mbs \<and> m \<in> set mbs \<and> mailbox_id m \<noteq> mailbox_id current \<and>
         sublist (toLowerCase (lower_other en) (name m)) (toLowerCase (lower_other en) txt)"
  using assms
  by (auto simp: findMentionedMailbox_def find_Some_iff includes_str_sublist split: if_splits)

lemma enqueueJob_no_credential:
  "slackBotToken mb = None \<Longrightarrow> enqueueJob en ev t mb w = (Inl AssertDefinedFailed, w)"
  by (simp add: enqueueJob_def assertDefined_def)

lemma enqueueJob_no_ts:
  "slackBotToken mb = Some token \<Longrightarrow>
   \<not> truthy_string
       (postMessage_ts en
          (calls w @ [ChatPostMessage token (channel ev) (thread_root ev) ''_Thinking..._''])) \<Longrightarrow>
   enqueueJob en ev t mb w =
     (Inl (Error ''Failed to post initial message''),
      record_call (ChatPostMessage token (channel ev) (thread_root ev) ''_Thinking..._'') w)"
  by (auto simp: enqueueJob_def assertDefined_def postThinkingMessage_def chat_postMessage_def
      record_call_def truthy_string_def Let_def split: option.splits)

lemma enqueueJob_ts:
  "slackBotToken mb = Some token \<Longrightarrow>
   postMessage_ts en
     (calls w @ [ChatPostMessage token (channel ev) (thread_root ev) ''_Thinking..._''])
     = Some status_ts \<Longrightarrow>
   status_ts \<noteq> [] \<Longrightarrow>
   enqueueJob en ev t mb w =
     (Inr (),
      record_call
        (TriggerEvent ''slack/agent.message''
           \<lparr>slackUserId = user ev, statusMessageTs = status_ts,
            job_agentThreadId = thread_id t\<rparr>)
        (record_call (ChatPostMessage token (channel ev) (thread_root ev) ''_Thinking..._'') w))"
  by (simp add: enqueueJob_def assertDefined_def postThinkingMessage_def chat_postMessage_def
      record_call_def triggerEvent_def Let_def)


lemma calls_since_append: "calls w' = calls w @ cs \<Longrightarrow> calls_since w w' = cs"
  by (simp add: calls_since_def)

lemma handleMessage_cases [consumes 1, case_names bot stop ask bind_failed job]:
  assumes "handleMessage en ev mi w = (r, w')"
  obtains
    (bot) "bot_marker ev" "r = Inr ()" "w' = w"
  | (stop) t w1 msg where "\<not> bot_marker ev" "resolveThread ev w = (Inr t, w1)"
      "recordMessage ev t w1 = (msg, w')" "msg = None \<or> \<not> truthy_string (event_text ev)"
      "r = Inr ()"
  | (ask) t w1 row w2 body where "\<not> bot_marker ev" "resolveThread ev w = (Inr t, w1)"
      "recordMessage ev t w1 = (Some row, w2)" "event_text ev = Some body" "body \<noteq> []"
      "effective_mailbox mi t = None" "askWhichMailbox en ev (mailboxes mi) w2 = (r, w')"
  | (bind_failed) t w1 row w2 body mb err where "\<not> bot_marker ev"
      "resolveThread ev w = (Inr t, w1)"
      "recordMessage ev t w1 = (Some row, w2)" "event_text ev = Some body" "body \<noteq> []"
      "effective_mailbox mi t = Some mb"
      "bindMailbox en ev mi t mb (findMentionedMailbox en body (mailboxes mi) mb) w2 = (Inl err, w')"
      "r = Inl err"
  | (job) t w1 row w2 body mb w3 where "\<not> bot_marker ev"
      "resolveThread ev w = (Inr t, w1)"
      "recordMessage ev t w1 = (Some row, w2)" "event_text ev = Some body" "body \<noteq> []"
      "effective_mailbox mi t = Some mb"
      "bindMailbox en ev mi t mb (findMentionedMailbox en body (mailboxes mi) mb) w2 = (Inr (), w3)"
      "enqueueJob en ev t mb w3 = (r, w')"
proof (cases "bot_marker ev")
  case True
  with assms bot show ?thesis by (simp add: handleMessage_def)
next
  case nobot: False
  obtain t w1 where thread: "resolveThread ev w = (Inr t, w1)"
    using resolveThread_total by blast
  obtain msg w2 where rec: "recordMessage ev t w1 = (msg, w2)"
    by (cases "recordMessage ev t w1")
  show ?thesis
  proof (cases "msg = None \<or> \<not> truthy_string (event_text ev)")
    case True
    with assms nobot thread rec have "r = Inr ()" "w' = w2"
      by (auto simp: handleMessage_def truthy_string_def split: option.splits)
    with stop [OF nobot thread _ True] rec show ?thesis by simp
  next
    case False
    then obtain row body where some: "msg = Some row" "event_text ev = Some body" "body \<noteq> []"
      by (auto simp: truthy_string_def split: option.splits)
    note routed = handleMessage_routed [OF nobot some(2,3) thread rec [unfolded some(1)], of en mi]
    show ?thesis
    proof (cases "effective_mailbox mi t")
      case None
      with routed assms have "askWhichMailbox en ev (mailboxes mi) w2 = (r, w')" by simp
      with ask [OF nobot thread rec [unfolded some(1)] some(2,3) None] show ?thesis by simp
    next
      case (Some mb)
      obtain r3 w3 where b: "bindMailbox en ev mi t mb (findMentionedMailbox en body (mailboxes mi) mb) w2 = (r3, w3)"
        by (cases "bindMailbox en ev mi t mb (findMentionedMailbox en body (mailboxes mi) mb) w2")
      show ?thesis
      proof (cases r3)
        case (Inl err)
        with routed assms Some b have "r = Inl err" "w' = w3" by simp_all
        with bind_failed [OF nobot thread rec [unfolded some(1)] some(2,3) Some] b Inl
        show ?thesis by simp
      next
        case (Inr u)
        with routed assms Some b have "enqueueJob en ev t mb w3 = (r, w')" by simp
        with job [OF nobot thread rec [unfolded some(1)] some(2,3) Some] b Inr
        show ?thesis by simp
      qed
    qed
  qed
qed


lemma persistence_quiet: "persistence_call c \<Longrightarrow> quiet c"
  by (cases c) (simp_all add: quiet_def)

lemma prompt_not_placeholder: "a @ '' ('' @ b @ '')'' \<noteq> ''_Thinking..._''"
proof
  assume "a @ '' ('' @ b @ '')'' = ''_Thinking..._''"
  then have "last (a @ '' ('' @ b @ '')'') = last ''_Thinking..._''" by simp
  then show False by simp
qed

lemma askWhichMailbox_calls:
  assumes "askWhichMailbox en ev mbs w = (r, w')"
  shows "\<exists>cs. calls w' = calls w @ cs \<and> list_all quiet cs \<and>
           r \<noteq> Inl (Error ''Failed to post initial message'')"
  using assms
  by (auto simp: askWhichMailbox_def assertDefined_def chat_postMessage_def record_call_def
      quiet_def prompt_not_placeholder split: option.splits list.splits)

lemma bindMailbox_calls:
  assumes "bindMailbox en ev mi t mb mentioned w = (r, w')"
  shows "\<exists>cs. calls w' = calls w @ cs \<and> list_all quiet cs \<and>
           r \<noteq> Inl (Error ''Failed to post initial message'')"
  using assms
  by (auto simp: bindMailbox_def assertDefined_def postMailboxSwitchMessage_def
      chat_postMessage_def updateThread_def record_call_def quiet_def Let_def
      split: option.splits if_splits)

lemma enqueueJob_cases:
  assumes "enqueueJob en ev t mb w = (r, w')"
  shows "(r = Inl AssertDefinedFailed \<and> w' = w)
    \<or> (\<exists>token. slackBotToken mb = Some token \<and>
          \<not> truthy_string
              (postMessage_ts en
                 (calls w @ [ChatPostMessage token (channel ev) (thread_root ev) ''_Thinking..._''])) \<and>
          r = Inl (Error ''Failed to post initial message'') \<and>
          w' = record_call (ChatPostMessage token (channel ev) (thread_root ev) ''_Thinking..._'') w)
    \<or> (\<exists>token status_ts. slackBotToken mb = Some token \<and>
          postMessage_ts en
            (calls w @ [ChatPostMessage token (channel ev) (thread_root ev) ''_Thinking..._''])
            = Some status_ts \<and> status_ts \<noteq> [] \<and>
          r = Inr () \<and>
          w' = record_call
                 (TriggerEvent ''slack/agent.message''
                    \<lparr>slackUserId = user ev, statusMessageTs = status_ts,
                     job_agentThreadId = thread_id t\<rparr>)
                 (record_call
                    (ChatPostMessage token (channel ev) (thread_root ev) ''_Thinking..._'') w))"
proof (cases "slackBotToken mb")
  case None
  with assms enqueueJob_no_credential [OF None, of en ev t w] show ?thesis by simp
next
  case (Some token)
  let ?post = "ChatPostMessage token (channel ev) (thread_root ev) ''_Thinking..._''"
  show ?thesis
  proof (cases "truthy_string (postMessage_ts en (calls w @ [?post]))")
    case False
    with assms enqueueJob_no_ts [OF Some False, of t] Some show ?thesis by simp
  next
    case True
    then obtain status_ts where "postMessage_ts en (calls w @ [?post]) = Some status_ts"
      "status_ts \<noteq> []"
      by (auto simp: truthy_string_def split: option.splits)
    with assms enqueueJob_ts [OF Some this, of t] Some show ?thesis by simp
  qed
qed

lemma handleMessage_shape:
  assumes "handleMessage en ev mi w = (r, w')"
  shows "\<exists>pre. list_all quiet pre \<and>
    ((calls w' = calls w @ pre \<and> r \<noteq> Inl (Error ''Failed to post initial message''))
     \<or> (\<exists>token.
          calls w' = calls w @ pre
            @ [ChatPostMessage token (channel ev) (thread_root ev) ''_Thinking..._''] \<and>
          \<not> truthy_string
              (postMessage_ts en
                 (calls w @ pre
                    @ [ChatPostMessage token (channel ev) (thread_root ev) ''_Thinking..._''])) \<and>
          r = Inl (Error ''Failed to post initial message''))
     \<or> (\<exists>token status_ts thread.
          calls w' = calls w @ pre
            @ [ChatPostMessage token (channel ev) (thread_root ev) ''_Thinking..._'',
               TriggerEvent ''slack/agent.message''
                 \<lparr>slackUserId = user ev, statusMessageTs = status_ts,
                  job_agentThreadId = thread\<rparr>] \<and>
          postMessage_ts en
            (calls w @ pre
               @ [ChatPostMessage token (channel ev) (thread_root ev) ''_Thinking..._''])
            = Some status_ts \<and> status_ts \<noteq> [] \<and>
          r = Inr ()))"
  using assms
proof (cases rule: handleMessage_cases)
  case bot
  then show ?thesis by (intro exI [of _ "[]"]) simp
next
  case (stop t w1 msg)
  from resolveThread_calls [OF stop(2)] recordMessage_calls [OF stop(3)]
  obtain a b where "calls w' = calls w @ a @ b" "list_all persistence_call (a @ b)"
    by auto
  with stop(5) show ?thesis
    by (intro exI [of _ "a @ b"]) (auto simp: list_all_iff persistence_quiet)
next
  case (ask t w1 row w2 body)
  from resolveThread_calls [OF ask(2)] recordMessage_calls [OF ask(3)]
    askWhichMailbox_calls [OF ask(7)]
  obtain a b c where "calls w' = calls w @ a @ b @ c" "list_all persistence_call (a @ b)"
    "list_all quiet c" "r \<noteq> Inl (Error ''Failed to post initial message'')"
    by auto
  then show ?thesis
    by (intro exI [of _ "a @ b @ c"]) (auto simp: list_all_iff persistence_quiet)
next
  case (bind_failed t w1 row w2 body mb err)
  from resolveThread_calls [OF bind_failed(2)] recordMessage_calls [OF bind_failed(3)]
    bindMailbox_calls [OF bind_failed(7)]
  obtain a b c where "calls w' = calls w @ a @ b @ c" "list_all persistence_call (a @ b)"
    "list_all quiet c" "Inl err \<noteq> Inl (Error ''Failed to post initial message'')"
    by auto
  with bind_failed(8) show ?thesis
    by (intro exI [of _ "a @ b @ c"]) (auto simp: list_all_iff persistence_quiet)
next
  case (job t w1 row w2 body mb w3)
  from resolveThread_calls [OF job(2)] recordMessage_calls [OF job(3)]
    bindMailbox_calls [OF job(7)]
  obtain a b c where "calls w3 = calls w @ a @ b @ c" "list_all persistence_call (a @ b)"
    "list_all quiet c"
    by auto
  then have pre: "calls w3 = calls w @ (a @ b @ c)" "list_all quiet (a @ b @ c)"
    by (auto simp: list_all_iff persistence_quiet)
  from enqueueJob_cases [OF job(8)] pre show ?thesis
    by (intro exI [of _ "a @ b @ c"]) (auto simp: record_call_def)
qed

lemma find_is_Some: "(\<exists>x. find P xs = Some x) = (\<exists>x \<in> set xs. P x)"
  by (induction xs) auto

lemma findMentionedMailbox_iff:
  "(\<exists>m. findMentionedMailbox en body mbs current = Some m) =
     (1 < length mbs \<and>
      (\<exists>m \<in> set mbs. mailbox_id m \<noteq> mailbox_id current \<and>
         sublist (toLowerCase (lower_other en) (name m)) (toLowerCase (lower_other en) body)))"
proof (cases "length mbs \<le> 1")
  case True
  then have "findMentionedMailbox en body mbs current = None"
    by (simp add: findMentionedMailbox_def)
  with True show ?thesis by simp
next
  case False
  then have "findMentionedMailbox en body mbs current =
      find (\<lambda>m. mailbox_id m \<noteq> mailbox_id current \<and>
                 includes_str (toLowerCase (lower_other en) body) (toLowerCase (lower_other en) (name m))) mbs"
    by (simp add: findMentionedMailbox_def)
  with False show ?thesis
    by (simp only: find_is_Some includes_str_sublist) simp
qed




text \<open>
  A name with a capital outside ASCII is found in a text that has it in lower case, as
  the runtime's \<open>toLowerCase\<close> makes the two agree.
\<close>

lemma findMentionedMailbox_outside_ascii:
  "findMentionedMailbox (ex_env\<lparr>lower_other := ex_latin_lower\<rparr>)
     (''ask '' @ [CHR 0xC3, CHR 0xA9] @ ''mile'') [ex_support, ex_emile] ex_support
   = Some ex_emile"
  by (simp add: findMentionedMailbox_def toLowerCase_def toLowerCase_char_def
      ex_latin_lower_def ex_support_def ex_emile_def)

section \<open>Events of automated senders\<close>

text \<open>
  C9. An event that carries a bot marker, that is a truthy \<open>bot_id\<close> or a \<open>bot_profile\<close>,
  makes \<open>handleMessage\<close> return at once: the database is as it was and no call to the
  persistence layer, the chat platform or the job trigger has been made.
\<close>

theorem handleMessage_bot_event:
  "truthy_string (bot_id ev) \<or> bot_profile ev \<noteq> None \<Longrightarrow>
   handleMessage en ev mailboxInfo w = (Inr (), w)"
  by (simp add: handleMessage_def bot_marker_def)

theorem handleMessage_bot_event_witness:
  "handleMessage ex_env (ex_event\<lparr>bot_id := Some ''B0HELPER''\<rparr>)
     \<lparr>mailboxes = [ex_support], currentMailbox = Some ex_support\<rparr> ex_world
   = (Inr (), ex_world)"
  using handleMessage_bot_event
    [of "ex_event\<lparr>bot_id := Some ''B0HELPER''\<rparr>" ex_env
        "\<lparr>mailboxes = [ex_support], currentMailbox = Some ex_support\<rparr>" ex_world]
  by (simp add: ex_event_def truthy_string_def)

section \<open>\<open>isAgentThread\<close>\<close>

lemma toLowerCase_char_aside:
  "toLowerCase_char CHR ''('' = CHR ''(''" "toLowerCase_char CHR '')'' = CHR '')''"
  "toLowerCase_char CHR ''A'' = CHR ''a''" "toLowerCase_char CHR ''a'' = CHR ''a''"
  "toLowerCase_char CHR ''S'' = CHR ''s''" "toLowerCase_char CHR ''s'' = CHR ''s''"
  "toLowerCase_char CHR ''I'' = CHR ''i''" "toLowerCase_char CHR ''i'' = CHR ''i''"
  "toLowerCase_char CHR ''D'' = CHR ''d''" "toLowerCase_char CHR ''d'' = CHR ''d''"
  "toLowerCase_char CHR ''E'' = CHR ''e''" "toLowerCase_char CHR ''e'' = CHR ''e''"
  by (simp_all add: toLowerCase_char_def)

lemma aside_variant:
  assumes "a \<in> {CHR ''a'', CHR ''A''}" "s \<in> {CHR ''s'', CHR ''S''}" "i \<in> {CHR ''i'', CHR ''I''}"
    "d \<in> {CHR ''d'', CHR ''D''}" "e \<in> {CHR ''e'', CHR ''E''}"
  shows "lower_from other whole k [CHR ''('', a, s, i, d, e, CHR '')''] = ''(aside)''"
proof -
  from assms have "toLowerCase_char a = CHR ''a''" "toLowerCase_char s = CHR ''s''"
    "toLowerCase_char i = CHR ''i''" "toLowerCase_char d = CHR ''d''"
    "toLowerCase_char e = CHR ''e''"
    by (auto simp only: toLowerCase_char_aside insert_iff empty_iff)
  moreover from assms have "\<not> digit7 a" "\<not> digit7 s" "\<not> digit7 i" "\<not> digit7 d" "\<not> digit7 e"
    by auto
  ultimately show ?thesis
    by (simp add: toLowerCase_char_aside)
qed

text \<open>Past its guards, \<open>isAgentThread\<close> makes the one fetch and decides on what it got.\<close>

lemma isAgentThread_passed:
  assumes "mailboxes mailboxInfo = m # rest"
    and "slackBotToken m = Some token" "token \<noteq> []"
    and "slackBotUserId m = Some botUserId" "botUserId \<noteq> []"
    and "thread_ts ev = Some root" "root \<noteq> []" "root \<noteq> ts ev"
    and "\<forall>txt. event_text ev = Some txt \<longrightarrow> \<not> includes_str (toLowerCase (lower_other en) txt) ''(aside)''"
    and "fetch = ConversationsReplies token (channel ev) root 50"
    and "fetched = (case replies_messages en (calls w @ [fetch]) of None \<Rightarrow> [] | Some ms \<Rightarrow> ms)"
  shows "isAgentThread en ev mailboxInfo w =
     (if list_ex (\<lambda>msg. message_user msg \<noteq> Some botUserId \<and>
                 (case message_text msg of
                    Some txt \<Rightarrow> includes_str txt (''<@'' @ botUserId @ ''>'')
                  | None \<Rightarrow> False)) fetched
      then (True, w\<lparr>calls := calls w @ [fetch]\<rparr>)
      else if (case fetched of [] \<Rightarrow> False | m0 # _ \<Rightarrow> message_user m0 = Some botUserId)
      then (\<not> (case fetched of
                  _ # m1 # _ \<Rightarrow>
                    (case message_text m1 of Some txt \<Rightarrow> match_mention txt | None \<Rightarrow> False)
                | _ \<Rightarrow> False),
            w\<lparr>calls := calls w @ [fetch]\<rparr>)
      else (False, w\<lparr>calls := calls w @ [fetch]\<rparr>))"
proof -
  have guard: "(case event_text ev of
                  Some txt \<Rightarrow> includes_str (toLowerCase (lower_other en) txt) ''(aside)''
                | None \<Rightarrow> False) = False"
    using assms(9) by (simp split: option.splits)
  show ?thesis
    using assms(1-8) guard
    by (simp add: isAgentThread_def conversations_replies_def record_call_def Let_def assms(10,11))
qed

lemma answer_cases:
  "(if A then (True, W) else if B then (\<not> C, W) else (False, W)) = (A \<or> B \<and> \<not> C, W)"
  by simp

text \<open>
  C6. \<open>isAgentThread\<close> returns false, and fetches nothing, whenever there is no first
  mailbox or the first mailbox has no truthy credential or no truthy bot identity id,
  or the event's thread timestamp is absent or equal to its own timestamp, or its text
  contains \<open>(aside)\<close> with each of the five letters in either case. The platform, and
  so whatever the thread mentions, is arbitrary.
\<close>

theorem isAgentThread_false_guards:
  assumes "mailboxes mailboxInfo = []
     \<or> (\<exists>m rest. mailboxes mailboxInfo = m # rest \<and>
          (\<not> truthy_string (slackBotToken m) \<or> \<not> truthy_string (slackBotUserId m)))
     \<or> thread_ts ev = None
     \<or> thread_ts ev = Some (ts ev)
     \<or> (\<exists>pre a s i d e post.
          event_text ev = Some (pre @ [CHR ''('', a, s, i, d, e, CHR '')''] @ post) \<and>
          a \<in> {CHR ''a'', CHR ''A''} \<and> s \<in> {CHR ''s'', CHR ''S''} \<and> i \<in> {CHR ''i'', CHR ''I''} \<and>
          d \<in> {CHR ''d'', CHR ''D''} \<and> e \<in> {CHR ''e'', CHR ''E''})"
  shows "isAgentThread en ev mailboxInfo w = (False, w)"
proof -
  consider (none) "mailboxes mailboxInfo = []"
    | (cred) m rest where "mailboxes mailboxInfo = m # rest"
        "\<not> truthy_string (slackBotToken m) \<or> \<not> truthy_string (slackBotUserId m)"
    | (root) "thread_ts ev = None \<or> thread_ts ev = Some (ts ev)"
    | (aside) pre a s i d e post where
        "event_text ev = Some (pre @ [CHR ''('', a, s, i, d, e, CHR '')''] @ post)"
        "a \<in> {CHR ''a'', CHR ''A''}" "s \<in> {CHR ''s'', CHR ''S''}" "i \<in> {CHR ''i'', CHR ''I''}"
        "d \<in> {CHR ''d'', CHR ''D''}" "e \<in> {CHR ''e'', CHR ''E''}"
    using assms by blast
  then show ?thesis
  proof cases
    case none
    then show ?thesis by (simp add: isAgentThread_def)
  next
    case cred
    then show ?thesis
      by (auto simp: isAgentThread_def truthy_string_def split: option.splits)
  next
    case root
    then show ?thesis
      by (auto simp: isAgentThread_def split: option.splits list.splits)
  next
    case aside
    let ?whole = "pre @ [CHR ''('', a, s, i, d, e, CHR '')''] @ post"
    have "\<exists>front back. toLowerCase (lower_other en) ?whole = front @ ''(aside)'' @ back"
      unfolding toLowerCase_def lower_from_append aside_variant [OF aside(2-6)] by blast
    then have "includes_str (toLowerCase (lower_other en) ?whole) ''(aside)''"
      unfolding includes_str_sublist sublist_def .
    with aside(1) show ?thesis
      by (simp add: isAgentThread_def split: option.splits list.splits)
  qed
qed

theorem isAgentThread_false_guards_witness:
  "isAgentThread
     (ex_thread_env [\<lparr>message_user = Some ''U1'', message_text = Some ''<@U0BOT> status?''\<rparr>])
     (ex_reply\<lparr>event_text := Some ''(Aside) lunch?''\<rparr>) ex_one_mailbox ex_world
   = (False, ex_world)"
proof -
  have "event_text (ex_reply\<lparr>event_text := Some ''(Aside) lunch?''\<rparr>)
          = Some ([] @ [CHR ''('', CHR ''A'', CHR ''s'', CHR ''i'', CHR ''d'', CHR ''e'', CHR '')'']
                    @ '' lunch?'')"
    by simp
  then have "\<exists>pre a s i d e post.
      event_text (ex_reply\<lparr>event_text := Some ''(Aside) lunch?''\<rparr>)
        = Some (pre @ [CHR ''('', a, s, i, d, e, CHR '')''] @ post) \<and>
      a \<in> {CHR ''a'', CHR ''A''} \<and> s \<in> {CHR ''s'', CHR ''S''} \<and> i \<in> {CHR ''i'', CHR ''I''} \<and>
      d \<in> {CHR ''d'', CHR ''D''} \<and> e \<in> {CHR ''e'', CHR ''E''}"
    by blast
  then show ?thesis
    by (intro isAgentThread_false_guards) blast
qed

text \<open>
  C5. For an event that passes the guards, \<open>isAgentThread\<close> makes one fetch of the
  thread's replies, with limit 50, and answers true exactly when a fetched message
  that the bot did not author contains \<open><@\<close>, the bot's id and \<open>>\<close>, or else the first
  fetched message is the bot's and it is not the case that a second fetched message
  has a text with a mention-style token (\<open><@\<close>, one or more characters other than \<open>>\<close>,
  then \<open>>\<close>).
\<close>

theorem isAgentThread_result:
  assumes "mailboxes mailboxInfo = m # rest"
    and "slackBotToken m = Some token" "token \<noteq> []"
    and "slackBotUserId m = Some botUserId" "botUserId \<noteq> []"
    and "thread_ts ev = Some root" "root \<noteq> []" "root \<noteq> ts ev"
    and "\<forall>txt. event_text ev = Some txt \<longrightarrow> \<not> includes_str (toLowerCase (lower_other en) txt) ''(aside)''"
    and "fetch = ConversationsReplies token (channel ev) root 50"
    and "fetched = (case replies_messages en (calls w @ [fetch]) of None \<Rightarrow> [] | Some ms \<Rightarrow> ms)"
  shows "isAgentThread en ev mailboxInfo w =
     ((\<exists>msg \<in> set fetched. message_user msg \<noteq> Some botUserId \<and>
          (\<exists>txt. message_text msg = Some txt \<and> sublist (''<@'' @ botUserId @ ''>'') txt))
      \<or> (fetched \<noteq> [] \<and> message_user (hd fetched) = Some botUserId) \<and>
          \<not> (\<exists>txt pre mid post. 1 < length fetched \<and> message_text (fetched ! 1) = Some txt \<and>
                txt = pre @ ''<@'' @ mid @ ''>'' @ post \<and> mid \<noteq> [] \<and> CHR ''>'' \<notin> set mid),
      w\<lparr>calls := calls w @ [fetch]\<rparr>)"
    (is "_ = (?A \<or> ?B \<and> \<not> ?C, ?W)")
proof -
  let ?loop = "list_ex (\<lambda>msg. message_user msg \<noteq> Some botUserId \<and>
                 (case message_text msg of
                    Some txt \<Rightarrow> includes_str txt (''<@'' @ botUserId @ ''>'')
                  | None \<Rightarrow> False)) fetched"
  let ?first = "case fetched of [] \<Rightarrow> False | m0 # _ \<Rightarrow> message_user m0 = Some botUserId"
  let ?second = "case fetched of
                   _ # m1 # _ \<Rightarrow>
                     (case message_text m1 of Some txt \<Rightarrow> match_mention txt | None \<Rightarrow> False)
                 | _ \<Rightarrow> False"
  have loop: "?loop = ?A"
    by (auto simp: list_ex_iff includes_str_sublist split: option.splits)
  have first: "?first = ?B"
    by (simp split: list.splits)
  have second: "?second = ?C"
  proof (cases fetched)
    case Nil
    then show ?thesis by simp
  next
    case outer: (Cons m0 l)
    show ?thesis
    proof (cases l)
      case Nil
      with outer show ?thesis by simp
    next
      case (Cons m1 l')
      with outer show ?thesis
        by (cases "message_text m1") (simp_all add: match_mention_token)
    qed
  qed
  have "isAgentThread en ev mailboxInfo w =
     (if ?loop then (True, ?W) else if ?first then (\<not> ?second, ?W) else (False, ?W))"
    by (rule isAgentThread_passed [OF assms])
  also have "\<dots> = (if ?A then (True, ?W) else if ?B then (\<not> ?C, ?W) else (False, ?W))"
    by (simp only: loop first second)
  also have "\<dots> = (?A \<or> ?B \<and> \<not> ?C, ?W)"
    by (rule answer_cases)
  finally show ?thesis .
qed

theorem isAgentThread_result_witness:
  "isAgentThread
     (ex_thread_env [\<lparr>message_user = Some ''U1'', message_text = Some ''<@U0BOT> status?''\<rparr>])
     ex_reply ex_one_mailbox ex_world
   = (True, ex_world\<lparr>calls := [ConversationsReplies ''xoxb-support'' ''C1'' ''100'' 50]\<rparr>)"
  using isAgentThread_result
    [where mailboxInfo = ex_one_mailbox and m = ex_support and rest = "[]"
       and token = "''xoxb-support''" and botUserId = "''U0BOT''" and ev = ex_reply
       and root = "''100''"
       and fetch = "ConversationsReplies ''xoxb-support'' ''C1'' ''100'' 50"
       and fetched = "[\<lparr>message_user = Some ''U1'', message_text = Some ''<@U0BOT> status?''\<rparr>]"
       and en = "ex_thread_env
                   [\<lparr>message_user = Some ''U1'', message_text = Some ''<@U0BOT> status?''\<rparr>]"
       and w = ex_world]
  by (simp add: ex_one_mailbox_def ex_support_def ex_reply_def ex_thread_env_def ex_world_def
      toLowerCase_def toLowerCase_char_def includes_str_sublist [symmetric])

text \<open>
  C10. When the fetch yields a single message and the bot authored it, \<open>isAgentThread\<close>
  answers true: no message that the bot did not author mentions it, the first message
  is the bot's, and the missing second message counts as one without a mention-style
  token.
\<close>

theorem isAgentThread_single_bot_message:
  assumes "mailboxes mailboxInfo = m # rest"
    and "slackBotToken m = Some token" "token \<noteq> []"
    and "slackBotUserId m = Some botUserId" "botUserId \<noteq> []"
    and "thread_ts ev = Some root" "root \<noteq> []" "root \<noteq> ts ev"
    and "\<forall>txt. event_text ev = Some txt \<longrightarrow> \<not> includes_str (toLowerCase (lower_other en) txt) ''(aside)''"
    and "replies_messages en (calls w @ [ConversationsReplies token (channel ev) root 50]) = Some [m0]"
    and "message_user m0 = Some botUserId"
  shows "isAgentThread en ev mailboxInfo w =
     (True, w\<lparr>calls := calls w @ [ConversationsReplies token (channel ev) root 50]\<rparr>)"
  using isAgentThread_passed [OF assms(1-9) refl refl, where w = w] assms(10,11)
  by simp

theorem isAgentThread_single_bot_message_witness:
  "isAgentThread
     (ex_thread_env [\<lparr>message_user = Some ''U0BOT'', message_text = Some ''Daily digest''\<rparr>])
     ex_reply ex_one_mailbox ex_world
   = (True, ex_world\<lparr>calls := [ConversationsReplies ''xoxb-support'' ''C1'' ''100'' 50]\<rparr>)"
  using isAgentThread_single_bot_message
    [where mailboxInfo = ex_one_mailbox and m = ex_support and rest = "[]"
       and token = "''xoxb-support''" and botUserId = "''U0BOT''" and ev = ex_reply
       and root = "''100''"
       and en = "ex_thread_env
                   [\<lparr>message_user = Some ''U0BOT'', message_text = Some ''Daily digest''\<rparr>]"
       and w = ex_world
       and ?m0.0 = "\<lparr>message_user = Some ''U0BOT'', message_text = Some ''Daily digest''\<rparr>"]
  by (simp add: ex_one_mailbox_def ex_support_def ex_reply_def ex_thread_env_def ex_world_def
      toLowerCase_def toLowerCase_char_def)

section \<open>No mailbox to route to\<close>

text \<open>
  C7, as amended. Take an event without bot marker, with a non-empty text and no
  Message yet of its Thread and timestamp, whose Thread's mailbox id is the id of no
  mailbox of the list, and let no mailbox be selected. If the first mailbox of the
  list has a credential, \<open>handleMessage\<close> inserts the Message, posts with that
  credential, into the thread, the prompt \<open>WHICH_MAILBOX_MESSAGE\<close> followed by the names
  of all mailboxes joined by \<open>/\<close> in parentheses, and returns. If the list is empty or
  its first mailbox has no credential, it raises the failure of \<open>assertDefined\<close> and
  posts nothing. It enqueues no job either way.
\<close>

theorem handleMessage_asks_which_mailbox:
  assumes "\<not> truthy_string (bot_id ev)" "bot_profile ev = None"
    and "event_text ev = Some txt" "txt \<noteq> []"
    and "resolveThread ev w = (Inr t, w1)"
    and "\<not> list_ex (message_conflict (thread_id t) (ts ev)) (agentMessages (db w1))"
    and "find (\<lambda>m. Some (mailbox_id m) = mailboxId t) (mailboxes mailboxInfo) = None"
    and "currentMailbox mailboxInfo = None"
    and "handleMessage en ev mailboxInfo w = (r, w')"
  shows "(case (case mailboxes mailboxInfo of [] \<Rightarrow> None | m # _ \<Rightarrow> slackBotToken m) of
            Some token \<Rightarrow>
              r = Inr () \<and>
              calls w' = calls w1 @
                [InsertMessage (thread_id t) ''user'' txt (channel ev) (ts ev),
                 ChatPostMessage token (channel ev) (thread_root ev)
                   (WHICH_MAILBOX_MESSAGE en @ '' (''
                      @ join ''/'' (map name (mailboxes mailboxInfo)) @ '')'')]
          | None \<Rightarrow>
              r = Inl AssertDefinedFailed \<and>
              calls w' = calls w1 @
                [InsertMessage (thread_id t) ''user'' txt (channel ev) (ts ev)])
         \<and> (\<forall>job p. TriggerEvent job p \<notin> set (calls_since w w'))"
proof -
  from assms(1,2) have nobot: "\<not> bot_marker ev"
    by (simp add: bot_marker_def)
  from recordMessage_new [OF assms(3,4,6)] obtain row w2
    where rec: "recordMessage ev t w1 = (Some row, w2)"
      and c2: "calls w2 = calls w1 @ [InsertMessage (thread_id t) ''user'' txt (channel ev) (ts ev)]"
    by blast
  from assms(7,8) have eff: "effective_mailbox mailboxInfo t = None"
    by (simp add: effective_mailbox_def)
  have run: "(r, w') = askWhichMailbox en ev (mailboxes mailboxInfo) w2"
    using handleMessage_routed [OF nobot assms(3,4,5) rec, of en mailboxInfo] eff assms(9)
    by simp
  from resolveThread_calls [OF assms(5)] obtain pre
    where c1: "calls w1 = calls w @ pre" and quiet: "list_all persistence_call pre"
    by blast
  have no_job: "\<And>job p. TriggerEvent job p \<notin> set pre"
    using quiet by (auto simp: list_all_iff)
  show ?thesis
  proof (cases "case mailboxes mailboxInfo of [] \<Rightarrow> None | m # _ \<Rightarrow> slackBotToken m")
    case None
    then have "mailboxes mailboxInfo = []
        \<or> (\<exists>m rest. mailboxes mailboxInfo = m # rest \<and> slackBotToken m = None)"
      by (cases "mailboxes mailboxInfo") simp_all
    from askWhichMailbox_no_credential [OF this, of en ev w2] run
    have r: "r = Inl AssertDefinedFailed" and w: "w' = w2" by simp_all
    have "calls_since w w' = pre @ [InsertMessage (thread_id t) ''user'' txt (channel ev) (ts ev)]"
      by (rule calls_since_append) (simp add: w c2 c1)
    with None r w c2 no_job show ?thesis by simp
  next
    case (Some token)
    then obtain m rest where mbs: "mailboxes mailboxInfo = m # rest" "slackBotToken m = Some token"
      by (cases "mailboxes mailboxInfo") simp_all
    let ?prompt = "ChatPostMessage token (channel ev) (thread_root ev)
                   (WHICH_MAILBOX_MESSAGE en @ '' (''
                      @ join ''/'' (map name (mailboxes mailboxInfo)) @ '')'')"
    from askWhichMailbox_credential [OF mbs, of en ev w2] run
    have r: "r = Inr ()" and w: "w' = w2\<lparr>calls := calls w2 @ [?prompt]\<rparr>" by simp_all
    have "calls_since w w'
            = pre @ [InsertMessage (thread_id t) ''user'' txt (channel ev) (ts ev), ?prompt]"
      by (rule calls_since_append) (simp add: w c2 c1)
    with Some r w c2 no_job show ?thesis by simp
  qed
qed

theorem handleMessage_asks_which_mailbox_witness:
  "fst (handleMessage ex_env ex_event ex_unselected ex_world) = Inr () \<and>
   calls (snd (handleMessage ex_env ex_event ex_unselected ex_world)) =
     [FindFirstThread ''C1'' ''100'', InsertThread ''C1'' ''100'',
      InsertMessage 1 ''user'' ''hi'' ''C1'' ''100'',
      ChatPostMessage ''xoxb-support'' ''C1'' ''100'' ''Which mailbox? (Support/Sales)'']"
proof -
  have thread: "resolveThread ex_event ex_world =
      (Inr \<lparr>thread_id = 1, slackChannel = ''C1'', threadTs = ''100'', mailboxId = None\<rparr>,
       \<lparr>db = \<lparr>agentThreads =
                 [\<lparr>thread_id = 1, slackChannel = ''C1'', threadTs = ''100'', mailboxId = None\<rparr>],
               agentMessages = []\<rparr>,
        calls = [FindFirstThread ''C1'' ''100'', InsertThread ''C1'' ''100'']\<rparr>)"
    by (simp add: eval_defs)
  from handleMessage_asks_which_mailbox
    [OF _ _ _ _ thread _ _ _ surjective_pairing, of "''hi''" ex_unselected ex_env]
  show ?thesis
    by (simp add: ex_event_def ex_unselected_def ex_support_def ex_sales_def ex_env_def
        truthy_string_def thread_root_def)
qed

text \<open>
  The claim as stated fails where the first mailbox has no credential: the handler
  raises before any prompt is posted.
\<close>

theorem handleMessage_prompt_counterexample:
  "handleMessage ex_env ex_event
     \<lparr>mailboxes = [ex_support\<lparr>slackBotToken := None\<rparr>, ex_sales], currentMailbox = None\<rparr> ex_world
   = (Inl AssertDefinedFailed,
      \<lparr>db = \<lparr>agentThreads =
                [\<lparr>thread_id = 1, slackChannel = ''C1'', threadTs = ''100'', mailboxId = None\<rparr>],
              agentMessages =
                [\<lparr>message_id = 1, agentThreadId = 1, role = ''user'', content = ''hi'',
                  message_slackChannel = ''C1'', messageTs = ''100''\<rparr>]\<rparr>,
       calls = [FindFirstThread ''C1'' ''100'', InsertThread ''C1'' ''100'',
                InsertMessage 1 ''user'' ''hi'' ''C1'' ''100'']\<rparr>)"
  by (simp add: eval_defs handleMessage_def)

section \<open>The placeholder and the job\<close>

text \<open>
  C8. If the handler posts the placeholder \<open>_Thinking..._\<close> and the platform's response
  to that post has no truthy \<open>ts\<close>, then the handler raises the error
  \<open>Failed to post initial message\<close>, makes no call after the post, and has enqueued no
  job.
\<close>

theorem handleMessage_placeholder_without_ts:
  assumes "handleMessage en ev mailboxInfo w = (r, w')"
    and "calls_since w w' = before @ ChatPostMessage token c root ''_Thinking..._'' # after"
    and "\<not> truthy_string
            (postMessage_ts en
               (calls w @ before @ [ChatPostMessage token c root ''_Thinking..._'']))"
  shows "r = Inl (Error ''Failed to post initial message'') \<and> after = [] \<and>
         (\<forall>job p. TriggerEvent job p \<notin> set (calls_since w w'))"
proof -
  let ?post = "ChatPostMessage token c root ''_Thinking..._''"
  from handleMessage_shape [OF assms(1)] obtain pre where quiet: "list_all quiet pre"
    and shape:
      "(calls w' = calls w @ pre \<and> r \<noteq> Inl (Error ''Failed to post initial message''))
       \<or> (\<exists>token.
            calls w' = calls w @ pre
              @ [ChatPostMessage token (channel ev) (thread_root ev) ''_Thinking..._''] \<and>
            \<not> truthy_string
                (postMessage_ts en
                   (calls w @ pre
                      @ [ChatPostMessage token (channel ev) (thread_root ev) ''_Thinking..._''])) \<and>
            r = Inl (Error ''Failed to post initial message''))
       \<or> (\<exists>token status_ts thread.
            calls w' = calls w @ pre
              @ [ChatPostMessage token (channel ev) (thread_root ev) ''_Thinking..._'',
                 TriggerEvent ''slack/agent.message''
                   \<lparr>slackUserId = user ev, statusMessageTs = status_ts,
                    job_agentThreadId = thread\<rparr>] \<and>
            postMessage_ts en
              (calls w @ pre
                 @ [ChatPostMessage token (channel ev) (thread_root ev) ''_Thinking..._''])
              = Some status_ts \<and> status_ts \<noteq> [] \<and>
            r = Inr ())"
    by blast
  have not_pre: "?post \<notin> set pre" and no_job: "\<And>job p. TriggerEvent job p \<notin> set pre"
    using quiet by (auto simp: list_all_iff quiet_def)
  from shape consider
      (silent) "calls w' = calls w @ pre"
    | (failed) tok where
        "calls w' = calls w @ pre
           @ [ChatPostMessage tok (channel ev) (thread_root ev) ''_Thinking..._'']"
        "r = Inl (Error ''Failed to post initial message'')"
    | (enqueued) tok status_ts thread where
        "calls w' = calls w @ pre
           @ [ChatPostMessage tok (channel ev) (thread_root ev) ''_Thinking..._'',
              TriggerEvent ''slack/agent.message''
                \<lparr>slackUserId = user ev, statusMessageTs = status_ts,
                 job_agentThreadId = thread\<rparr>]"
        "postMessage_ts en
           (calls w @ pre
              @ [ChatPostMessage tok (channel ev) (thread_root ev) ''_Thinking..._''])
           = Some status_ts" "status_ts \<noteq> []"
    by blast
  then show ?thesis
  proof cases
    case silent
    then have "calls_since w w' = pre" by (rule calls_since_append)
    with assms(2) not_pre show ?thesis by auto
  next
    case failed
    let ?made = "ChatPostMessage tok (channel ev) (thread_root ev) ''_Thinking..._''"
    from failed(1) have "calls_since w w' = pre @ [?made]" by (rule calls_since_append)
    with assms(2) have eq: "before @ ?post # after = pre @ [?made]" by simp
    have "after = []"
    proof (cases after rule: rev_cases)
      case Nil
      then show ?thesis .
    next
      case (snoc rest last)
      with eq have "pre = before @ ?post # rest" by simp
      with not_pre show ?thesis by simp
    qed
    with eq have "before = pre" "?post = ?made" by simp_all
    with failed \<open>after = []\<close> \<open>calls_since w w' = pre @ [?made]\<close> no_job
    show ?thesis by simp
  next
    case enqueued
    let ?made = "ChatPostMessage tok (channel ev) (thread_root ev) ''_Thinking..._''"
    let ?job = "TriggerEvent ''slack/agent.message''
                \<lparr>slackUserId = user ev, statusMessageTs = status_ts,
                 job_agentThreadId = thread\<rparr>"
    from enqueued(1) have "calls_since w w' = pre @ [?made, ?job]" by (rule calls_since_append)
    with assms(2) have eq: "before @ ?post # after = (pre @ [?made]) @ [?job]" by simp
    have "after = [?job]"
    proof (cases after rule: rev_cases)
      case Nil
      with eq show ?thesis by simp
    next
      case outer: (snoc rest last)
      with eq have mid: "before @ ?post # rest = pre @ [?made]" by simp
      have "rest = []"
      proof (cases rest rule: rev_cases)
        case Nil
        then show ?thesis .
      next
        case (snoc rest' x)
        with mid have "pre = before @ ?post # rest'" by simp
        with not_pre show ?thesis by simp
      qed
      with outer eq show ?thesis by simp
    qed
    with eq have "before = pre" "?post = ?made" by simp_all
    with enqueued(2,3) assms(3) show ?thesis
      by (simp add: truthy_string_def)
  qed
qed

theorem handleMessage_placeholder_without_ts_witness:
  "fst (handleMessage ex_silent_env ex_event ex_one_mailbox ex_world)
     = Inl (Error ''Failed to post initial message'') \<and>
   calls_since ex_world (snd (handleMessage ex_silent_env ex_event ex_one_mailbox ex_world))
     = [FindFirstThread ''C1'' ''100'', InsertThread ''C1'' ''100'',
        InsertMessage 1 ''user'' ''hi'' ''C1'' ''100'', UpdateThread 1 1,
        ChatPostMessage ''xoxb-support'' ''C1'' ''100'' ''_Thinking..._'']"
proof -
  have run: "calls_since ex_world (snd (handleMessage ex_silent_env ex_event ex_one_mailbox ex_world))
     = [FindFirstThread ''C1'' ''100'', InsertThread ''C1'' ''100'',
        InsertMessage 1 ''user'' ''hi'' ''C1'' ''100'', UpdateThread 1 1]
       @ ChatPostMessage ''xoxb-support'' ''C1'' ''100'' ''_Thinking..._'' # []"
    by (simp add: eval_defs handleMessage_def calls_since_def)
  have "\<not> truthy_string
            (postMessage_ts ex_silent_env
               (calls ex_world @
                [FindFirstThread ''C1'' ''100'', InsertThread ''C1'' ''100'',
                 InsertMessage 1 ''user'' ''hi'' ''C1'' ''100'', UpdateThread 1 1]
                @ [ChatPostMessage ''xoxb-support'' ''C1'' ''100'' ''_Thinking..._'']))"
    by (simp add: ex_silent_env_def truthy_string_def)
  from handleMessage_placeholder_without_ts [OF surjective_pairing run this] run
  show ?thesis by simp
qed

text \<open>
  C4. In a Thread bound to the first mailbox, a reply that names the second one rebinds
  the Thread to the second mailbox and posts the notice with the second mailbox's
  credential, and then posts the placeholder with the credential of the first: line 73
  builds the client from \<open>mailbox\<close>, not from \<open>mailboxToUse\<close>. The placeholder's \<open>ts\<close> is
  the job's \<open>statusMessageTs\<close>.
\<close>

theorem handleMessage_placeholder_credential_at_switch:
  "handleMessage ex_env ex_followup ex_selected ex_bound_world
   = (Inr (),
      \<lparr>db = \<lparr>agentThreads =
                [\<lparr>thread_id = 1, slackChannel = ''C1'', threadTs = ''100'', mailboxId = Some 2\<rparr>],
              agentMessages =
                [\<lparr>message_id = 1, agentThreadId = 1, role = ''user'', content = ''hi'',
                  message_slackChannel = ''C1'', messageTs = ''100''\<rparr>,
                 \<lparr>message_id = 2, agentThreadId = 1, role = ''user'',
                  content = ''ask SALES please'', message_slackChannel = ''C1'',
                  messageTs = ''130''\<rparr>]\<rparr>,
       calls = [FindFirstThread ''C1'' ''100'',
                InsertMessage 1 ''user'' ''ask SALES please'' ''C1'' ''130'',
                UpdateThread 1 2,
                ChatPostMessage ''xoxb-sales'' ''C1'' ''100'' ''_Switched to the Sales mailbox_'',
                ChatPostMessage ''xoxb-support'' ''C1'' ''100'' ''_Thinking..._'',
                TriggerEvent ''slack/agent.message''
                  \<lparr>slackUserId = Some ''U1'', statusMessageTs = ''200'',
                   job_agentThreadId = 1\<rparr>]\<rparr>)"
  by (simp add: eval_defs handleMessage_def)

section \<open>The notice of a switch\<close>




section \<open>The database across a run\<close>

lemma fold_max_ge: "a \<le> fold max ids a \<and> (\<forall>x \<in> set ids. x \<le> fold max ids (a::nat))"
proof (induction ids arbitrary: a)
  case Nil
  then show ?case by simp
next
  case (Cons i ids)
  from Cons.IH [of "max i a"] show ?case by auto
qed

lemma new_id_fresh: "new_id ids \<notin> set ids"
  using fold_max_ge [of 0 ids] by (auto simp: new_id_def)

lemma find_append_Some: "find P xs = Some x \<Longrightarrow> find P (xs @ ys) = Some x"
  by (induction xs) (auto split: if_splits)

lemma find_append_None: "find P xs = None \<Longrightarrow> find P (xs @ ys) = find P ys"
  by (induction xs) (auto split: if_splits)

lemma find_map_same:
  "(\<And>x. P (f x) = P x) \<Longrightarrow> find P (map f xs) = map_option f (find P xs)"
  by (induction xs) auto

lemma find_by_key:
  "distinct (map f xs) \<Longrightarrow> x \<in> set xs \<Longrightarrow> find (\<lambda>y. f y = f x) xs = Some x"
  by (induction xs) (auto simp: image_iff)

lemma key_unique:
  "distinct (map f xs) \<Longrightarrow> x \<in> set xs \<Longrightarrow> y \<in> set xs \<Longrightarrow> f x = f y \<Longrightarrow> x = y"
  by (meson distinct_map inj_on_eq_iff)

lemma resolveThread_db:
  assumes "resolveThread ev w = (Inr t, w1)"
  shows "agentMessages (db w1) = agentMessages (db w)"
    and "find (\<lambda>r. slackChannel r = channel ev \<and> threadTs r = thread_root ev)
           (agentThreads (db w1)) = Some t"
    and "agentThreads (db w1) = agentThreads (db w)
         \<or> (agentThreads (db w1) = agentThreads (db w) @ [t] \<and>
            thread_id t \<notin> set (map thread_id (agentThreads (db w))) \<and> mailboxId t = None)"
proof -
  let ?key = "\<lambda>r. slackChannel r = channel ev \<and> threadTs r = thread_root ev"
  show "agentMessages (db w1) = agentMessages (db w)"
    using assms
    by (auto simp: resolveThread_def findFirstThread_def insertThread_def record_call_def
        takeUniqueOrThrow_def Let_def split: option.splits)
  show "find ?key (agentThreads (db w1)) = Some t"
  proof (cases "find ?key (agentThreads (db w))")
    case None
    with assms show ?thesis
      by (auto simp: resolveThread_def findFirstThread_def insertThread_def record_call_def
          takeUniqueOrThrow_def Let_def find_append_None)
  next
    case (Some a)
    with assms show ?thesis
      by (auto simp: resolveThread_def findFirstThread_def record_call_def)
  qed
  show "agentThreads (db w1) = agentThreads (db w)
         \<or> (agentThreads (db w1) = agentThreads (db w) @ [t] \<and>
            thread_id t \<notin> set (map thread_id (agentThreads (db w))) \<and> mailboxId t = None)"
    using assms new_id_fresh [of "map thread_id (agentThreads (db w))"]
    by (auto simp: resolveThread_def findFirstThread_def insertThread_def record_call_def
        takeUniqueOrThrow_def Let_def split: option.splits)
qed

lemma recordMessage_db:
  assumes "recordMessage ev t w = (msg, w')"
  shows "agentThreads (db w') = agentThreads (db w)"
    and "\<exists>added. agentMessages (db w') = agentMessages (db w) @ added"
    and "truthy_string (event_text ev) \<Longrightarrow>
         list_ex (message_conflict (thread_id t) (ts ev)) (agentMessages (db w'))"
  using assms
  by (auto simp: recordMessage_def insertMessage_def record_call_def Let_def truthy_string_def
      message_conflict_def split: option.splits if_splits)

lemma askWhichMailbox_db: "askWhichMailbox en ev mbs w = (r, w') \<Longrightarrow> db w' = db w"
  by (auto simp: askWhichMailbox_def assertDefined_def chat_postMessage_def record_call_def
      split: option.splits list.splits)

lemma enqueueJob_db: "enqueueJob en ev t mb w = (r, w') \<Longrightarrow> db w' = db w"
  using enqueueJob_cases [of en ev t mb w r w'] by (auto simp: record_call_def)

lemma bindMailbox_db:
  assumes "bindMailbox en ev mi t mb mentioned w = (r, w')"
  shows "agentMessages (db w') = agentMessages (db w)"
    and "agentThreads (db w') =
      (if \<not> truthy_number (mailboxId t) \<or> mentioned \<noteq> None then
         map (\<lambda>x. if thread_id x = thread_id t
                   then x\<lparr>mailboxId :=
                           Some (mailbox_id (case mentioned of Some m \<Rightarrow> m | None \<Rightarrow> mb))\<rparr>
                   else x)
           (agentThreads (db w))
       else agentThreads (db w))"
  using assms
  by (auto simp: bindMailbox_def assertDefined_def postMailboxSwitchMessage_def
      chat_postMessage_def updateThread_def record_call_def Let_def
      split: option.splits if_splits)

lemma find_updated:
  "find (\<lambda>x. thread_id x = i)
     (map (\<lambda>x. if thread_id x = j then x\<lparr>mailboxId := v\<rparr> else x) xs)
   = map_option (\<lambda>x. if thread_id x = j then x\<lparr>mailboxId := v\<rparr> else x)
       (find (\<lambda>x. thread_id x = i) xs)"
  by (rule find_map_same) simp

lemma handleMessage_distinct_ids:
  assumes "distinct (map thread_id (agentThreads (db w)))"
    and "handleMessage en ev mi w = (r, w')"
  shows "distinct (map thread_id (agentThreads (db w')))"
proof -
  have first: "distinct (map thread_id (agentThreads (db w1)))"
    if "resolveThread ev w = (Inr t, w1)" for t w1
    using resolveThread_db(3) [OF that] assms(1) by auto
  have later: "distinct (map thread_id (agentThreads (db w3)))"
    if "resolveThread ev w = (Inr t, w1)" "recordMessage ev t w1 = (msg, w2)"
      "bindMailbox en ev mi t mb mentioned w2 = (r3, w3)"
    for t w1 msg w2 mb mentioned r3 w3
  proof -
    have "map thread_id (agentThreads (db w3)) = map thread_id (agentThreads (db w1))"
      using bindMailbox_db(2) [OF that(3)] recordMessage_db(1) [OF that(2)]
      by (auto simp: comp_def)
    with first [OF that(1)] show ?thesis by simp
  qed
  from assms(2) show ?thesis
  proof (cases rule: handleMessage_cases)
    case bot
    with assms(1) show ?thesis by simp
  next
    case (stop t w1 msg)
    from first [OF stop(2)] recordMessage_db(1) [OF stop(3)] show ?thesis by simp
  next
    case (ask t w1 row w2 body)
    from first [OF ask(2)] recordMessage_db(1) [OF ask(3)] askWhichMailbox_db [OF ask(7)]
    show ?thesis by simp
  next
    case (bind_failed t w1 row w2 body mb err)
    from later [OF bind_failed(2,3,7)] show ?thesis .
  next
    case (job t w1 row w2 body mb w3)
    from later [OF job(2,3,7)] enqueueJob_db [OF job(8)] show ?thesis by simp
  qed
qed

lemma recorded_step:
  assumes "recorded c root mts w"
    and "agentThreads (db w') = map upd (agentThreads (db w) @ new)"
    and "\<And>x. thread_id (upd x) = thread_id x \<and> slackChannel (upd x) = slackChannel x \<and>
              threadTs (upd x) = threadTs x"
    and "agentMessages (db w') = agentMessages (db w) @ added"
  shows "recorded c root mts w'"
proof -
  let ?key = "\<lambda>r. slackChannel r = c \<and> threadTs r = root"
  from assms(1) obtain t where t: "find ?key (agentThreads (db w)) = Some t"
    and m: "list_ex (message_conflict (thread_id t) mts) (agentMessages (db w))"
    by (auto simp: recorded_def split: option.splits)
  have "find ?key (map upd (agentThreads (db w) @ new))
        = map_option upd (find ?key (agentThreads (db w) @ new))"
    by (rule find_map_same) (simp add: assms(3))
  with t have "find ?key (agentThreads (db w')) = Some (upd t)"
    by (simp add: assms(2) find_append_Some)
  moreover from m have "list_ex (message_conflict (thread_id (upd t)) mts) (agentMessages (db w'))"
    by (simp add: assms(3,4))
  ultimately show ?thesis
    by (simp add: recorded_def)
qed

lemma handleMessage_db:
  assumes "handleMessage en ev mi w = (r, w')"
  shows "\<exists>upd new added.
     agentThreads (db w') = map upd (agentThreads (db w) @ new) \<and>
     (\<forall>x. thread_id (upd x) = thread_id x \<and> slackChannel (upd x) = slackChannel x \<and>
          threadTs (upd x) = threadTs x) \<and>
     agentMessages (db w') = agentMessages (db w) @ added"
proof -
  have plain: ?thesis
    if "agentThreads (db w') = agentThreads (db w1)"
      and "agentMessages (db w') = agentMessages (db w1) @ added"
      and "resolveThread ev w = (Inr t, w1)" for t w1 added
  proof -
    from resolveThread_db(3) [OF that(3)] obtain new
      where "agentThreads (db w1) = agentThreads (db w) @ new"
      by auto
    with that(1,2) resolveThread_db(1) [OF that(3)]
    have "agentThreads (db w') = map (\<lambda>x. x) (agentThreads (db w) @ new) \<and>
          (\<forall>x. thread_id x = thread_id x \<and> slackChannel x = slackChannel x \<and>
               threadTs x = threadTs x) \<and>
          agentMessages (db w') = agentMessages (db w) @ added"
      by simp
    then show ?thesis by blast
  qed
  have routed: ?thesis
    if thread: "resolveThread ev w = (Inr t, w1)"
      and rec: "recordMessage ev t w1 = (msg, w2)"
      and bind: "bindMailbox en ev mi t mb mentioned w2 = (r3, w3)"
      and same: "db w' = db w3"
    for t w1 msg w2 mb mentioned r3 w3
  proof -
    from resolveThread_db(3) [OF thread] obtain new
      where t1: "agentThreads (db w1) = agentThreads (db w) @ new"
      by auto
    from recordMessage_db(2) [OF rec] resolveThread_db(1) [OF thread] obtain added
      where m2: "agentMessages (db w2) = agentMessages (db w) @ added"
      by auto
    let ?upd = "\<lambda>x. if thread_id x = thread_id t
                   then x\<lparr>mailboxId :=
                           Some (mailbox_id (case mentioned of Some m \<Rightarrow> m | None \<Rightarrow> mb))\<rparr>
                   else x"
    have "agentThreads (db w3) = map ?upd (agentThreads (db w) @ new)
          \<or> agentThreads (db w3) = map (\<lambda>x. x) (agentThreads (db w) @ new)"
      using bindMailbox_db(2) [OF bind] recordMessage_db(1) [OF rec] t1
      by (simp split: if_splits)
    moreover have "agentMessages (db w3) = agentMessages (db w) @ added"
      using bindMailbox_db(1) [OF bind] m2 by simp
    moreover have "\<forall>x. thread_id (?upd x) = thread_id x \<and> slackChannel (?upd x) = slackChannel x \<and>
          threadTs (?upd x) = threadTs x"
      by simp
    ultimately show ?thesis
      unfolding same by blast
  qed
  from assms show ?thesis
  proof (cases rule: handleMessage_cases)
    case bot
    then have "agentThreads (db w') = map (\<lambda>x. x) (agentThreads (db w) @ []) \<and>
          (\<forall>x::agentThread. thread_id x = thread_id x \<and> slackChannel x = slackChannel x \<and>
               threadTs x = threadTs x) \<and>
          agentMessages (db w') = agentMessages (db w) @ []"
      by simp
    then show ?thesis by blast
  next
    case (stop t w1 msg)
    from recordMessage_db(2) [OF stop(3)] obtain added
      where "agentMessages (db w') = agentMessages (db w1) @ added" by blast
    from plain [OF recordMessage_db(1) [OF stop(3)] this stop(2)] show ?thesis .
  next
    case (ask t w1 row w2 body)
    from recordMessage_db(2) [OF ask(3)] askWhichMailbox_db [OF ask(7)] obtain added
      where m: "agentMessages (db w') = agentMessages (db w1) @ added" by auto
    have "agentThreads (db w') = agentThreads (db w1)"
      using recordMessage_db(1) [OF ask(3)] askWhichMailbox_db [OF ask(7)] by simp
    from plain [OF this m ask(2)] show ?thesis .
  next
    case (bind_failed t w1 row w2 body mb err)
    from routed [OF bind_failed(2,3,7) refl] show ?thesis .
  next
    case (job t w1 row w2 body mb w3)
    from routed [OF job(2,3,7) enqueueJob_db [OF job(8)]] show ?thesis .
  qed
qed

lemma recorded_kept:
  assumes "recorded c root mts w" and "handleMessage en ev mi w = (r, w')"
  shows "recorded c root mts w'"
proof -
  from handleMessage_db [OF assms(2)] obtain upd new added
    where "agentThreads (db w') = map upd (agentThreads (db w) @ new)"
      and "\<And>x. thread_id (upd x) = thread_id x \<and> slackChannel (upd x) = slackChannel x \<and>
              threadTs (upd x) = threadTs x"
      and "agentMessages (db w') = agentMessages (db w) @ added"
    by blast
  with assms(1) show ?thesis by (rule recorded_step)
qed

lemma recorded_kept_all: "recorded c root mts w \<Longrightarrow> recorded c root mts (handle_all ds w)"
proof (induction ds arbitrary: w)
  case Nil
  then show ?case by simp
next
  case (Cons d ds)
  obtain en ev mi where d: "d = (en, ev, mi)" by (cases d)
  from Cons.prems have "recorded c root mts (snd (handleMessage en ev mi w))"
    by (rule recorded_kept) (rule surjective_pairing)
  with Cons.IH d show ?case by simp
qed

lemma recorded_after:
  assumes "\<not> bot_marker ev" "truthy_string (event_text ev)"
    and "handleMessage en ev mi w = (r, w')"
  shows "recorded (channel ev) (thread_root ev) (ts ev) w'"
proof -
  have at_record: "recorded (channel ev) (thread_root ev) (ts ev) w2"
    if "resolveThread ev w = (Inr t, w1)" "recordMessage ev t w1 = (msg, w2)" for t w1 msg w2
    using resolveThread_db(2) [OF that(1)] recordMessage_db(1,3) [OF that(2)] assms(2)
    by (simp add: recorded_def)
  have later: "recorded (channel ev) (thread_root ev) (ts ev) w'"
    if "resolveThread ev w = (Inr t, w1)" "recordMessage ev t w1 = (msg, w2)"
      "bindMailbox en ev mi t mb mentioned w2 = (r3, w3)" "db w' = db w3"
    for t w1 msg w2 mb mentioned r3 w3
  proof -
    let ?upd = "\<lambda>x. if thread_id x = thread_id t
                   then x\<lparr>mailboxId :=
                           Some (mailbox_id (case mentioned of Some m \<Rightarrow> m | None \<Rightarrow> mb))\<rparr>
                   else x"
    have "agentThreads (db w') = map ?upd (agentThreads (db w2) @ [])
          \<or> agentThreads (db w') = map (\<lambda>x. x) (agentThreads (db w2) @ [])"
      using bindMailbox_db(2) [OF that(3)] that(4) by (simp split: if_splits)
    moreover have "agentMessages (db w') = agentMessages (db w2) @ []"
      using bindMailbox_db(1) [OF that(3)] that(4) by simp
    ultimately show ?thesis
      using recorded_step [OF at_record [OF that(1,2)], of w' ?upd "[]" "[]"]
        recorded_step [OF at_record [OF that(1,2)], of w' "\<lambda>x. x" "[]" "[]"]
      by auto
  qed
  from assms(3) show ?thesis
  proof (cases rule: handleMessage_cases)
    case bot
    with assms(1) show ?thesis by simp
  next
    case (stop t w1 msg)
    from at_record [OF stop(2,3)] show ?thesis .
  next
    case (ask t w1 row w2 body)
    from at_record [OF ask(2,3)] askWhichMailbox_db [OF ask(7)] show ?thesis
      by (simp add: recorded_def split: option.splits)
  next
    case (bind_failed t w1 row w2 body mb err)
    from later [OF bind_failed(2,3,7) refl] show ?thesis .
  next
    case (job t w1 row w2 body mb w3)
    from later [OF job(2,3,7) enqueueJob_db [OF job(8)]] show ?thesis .
  qed
qed

lemma recorded_noop:
  assumes "recorded (channel ev) (thread_root ev) (ts ev) w"
  shows "\<exists>extra. handleMessage en ev mi w = (Inr (), w\<lparr>calls := calls w @ extra\<rparr>) \<and>
     (extra = []
      \<or> extra = [FindFirstThread (channel ev) (thread_root ev)]
      \<or> (\<exists>thread body.
            extra = [FindFirstThread (channel ev) (thread_root ev),
                     InsertMessage thread ''user'' body (channel ev) (ts ev)]))"
proof (cases "bot_marker ev")
  case True
  then have "handleMessage en ev mi w = (Inr (), w\<lparr>calls := calls w @ []\<rparr>)"
    by (simp add: handleMessage_def)
  then show ?thesis by blast
next
  case nobot: False
  let ?found = "record_call (FindFirstThread (channel ev) (thread_root ev)) w"
  from assms obtain t
    where t: "find (\<lambda>r. slackChannel r = channel ev \<and> threadTs r = thread_root ev)
                (agentThreads (db w)) = Some t"
      and m: "list_ex (message_conflict (thread_id t) (ts ev)) (agentMessages (db w))"
    by (auto simp: recorded_def split: option.splits)
  note thread = resolveThread_found [OF t]
  show ?thesis
  proof (cases "truthy_string (event_text ev)")
    case False
    from handleMessage_no_text [OF nobot False thread, of en mi]
    have "handleMessage en ev mi w
          = (Inr (), w\<lparr>calls := calls w @ [FindFirstThread (channel ev) (thread_root ev)]\<rparr>)"
      by (simp add: record_call_def)
    then show ?thesis by blast
  next
    case True
    then obtain body where body: "event_text ev = Some body" "body \<noteq> []"
      by (auto simp: truthy_string_def split: option.splits)
    from m have "list_ex (message_conflict (thread_id t) (ts ev)) (agentMessages (db ?found))"
      by (simp add: record_call_def)
    from handleMessage_duplicate [OF nobot body thread this, of en mi]
    have "handleMessage en ev mi w
          = (Inr (), w\<lparr>calls := calls w @
               [FindFirstThread (channel ev) (thread_root ev),
                InsertMessage (thread_id t) ''user'' body (channel ev) (ts ev)]\<rparr>)"
      by (simp add: record_call_def)
    then show ?thesis by blast
  qed
qed

section \<open>The binding of a Thread\<close>

text \<open>
  C2. Let the ids of the Threads be distinct, as a primary key makes them (and as
  \<open>handleMessage\<close> keeps them), and let a Thread have a mailbox id that is set, that is
  truthy: present and not 0. After \<open>handleMessage\<close>, whatever the event, the mailboxes and
  the outcome, the row of that id is the Thread unchanged, or it is the Thread with only
  its mailbox id overwritten, and then: the event resolves to this Thread and has a
  text, there is more than one mailbox, and the lower-cased text contains the
  lower-cased name of a mailbox of the list whose id is not that of the Thread's
  effective mailbox; the new binding is that mailbox's id. A binding is never cleared.
\<close>

theorem handleMessage_bound_mailbox:
  assumes "distinct (map thread_id (agentThreads (db w)))"
    and "thread \<in> set (agentThreads (db w))"
    and "mailboxId thread = Some bound" "bound \<noteq> 0"
    and "handleMessage en ev mailboxInfo w = (r, w')"
  shows "\<exists>thread'.
     find (\<lambda>x. thread_id x = thread_id thread) (agentThreads (db w')) = Some thread' \<and>
     (thread' = thread
      \<or> (\<exists>body mailbox m.
            event_text ev = Some body \<and>
            slackChannel thread = channel ev \<and> threadTs thread = thread_root ev \<and>
            effective_mailbox mailboxInfo thread = Some mailbox \<and>
            1 < length (mailboxes mailboxInfo) \<and> m \<in> set (mailboxes mailboxInfo) \<and>
            mailbox_id m \<noteq> mailbox_id mailbox \<and>
            sublist (toLowerCase (lower_other en) (name m)) (toLowerCase (lower_other en) body) \<and>
            thread' = thread\<lparr>mailboxId := Some (mailbox_id m)\<rparr>))"
    (is "\<exists>thread'. ?found w' thread' \<and> (thread' = thread \<or> ?switched thread')")
proof -
  let ?by_id = "\<lambda>x. thread_id x = thread_id thread"
  have start: "find ?by_id (agentThreads (db w)) = Some thread"
    using assms(1,2) by (rule find_by_key)
  have kept: "?found w' thread" if "agentThreads (db w') = agentThreads (db w1)"
    and "resolveThread ev w = (Inr t, w1)" for t w1
    using resolveThread_db(3) [OF that(2)] start that(1)
    by (auto simp: find_append_Some)
  have routed: "\<exists>thread'. ?found w' thread' \<and> (thread' = thread \<or> ?switched thread')"
    if thread: "resolveThread ev w = (Inr t, w1)"
      and rec: "recordMessage ev t w1 = (Some row, w2)"
      and body: "event_text ev = Some body"
      and eff: "effective_mailbox mailboxInfo t = Some mb"
      and bind: "bindMailbox en ev mailboxInfo t mb
                   (findMentionedMailbox en body (mailboxes mailboxInfo) mb) w2 = (r3, w3)"
      and same: "db w' = db w3"
    for t w1 row w2 body mb r3 w3
  proof -
    let ?mentioned = "findMentionedMailbox en body (mailboxes mailboxInfo) mb"
    have t2: "agentThreads (db w2) = agentThreads (db w1)"
      using recordMessage_db(1) [OF rec] .
    have found1: "find ?by_id (agentThreads (db w1)) = Some thread"
      using resolveThread_db(3) [OF thread] start by (auto simp: find_append_Some)
    have distinct1: "distinct (map thread_id (agentThreads (db w1)))"
      using resolveThread_db(3) [OF thread] assms(1) by auto
    have t_in: "t \<in> set (agentThreads (db w1))"
      and key: "slackChannel t = channel ev \<and> threadTs t = thread_root ev"
      using resolveThread_db(2) [OF thread] by (auto simp: find_Some_iff)
    have thread_in: "thread \<in> set (agentThreads (db w1))"
      using found1 by (auto simp: find_Some_iff)
    show ?thesis
    proof (cases "thread_id t = thread_id thread")
      case False
      then have "find ?by_id (agentThreads (db w3)) = Some thread"
        using bindMailbox_db(2) [OF bind] found1 t2
        by (auto simp: find_updated)
      with same show ?thesis by simp
    next
      case True
      with distinct1 t_in thread_in have same_thread: "t = thread"
        by (rule key_unique)
      with assms(3,4) have set: "truthy_number (mailboxId t)"
        by (simp add: truthy_number_def)
      show ?thesis
      proof (cases ?mentioned)
        case None
        with set have "agentThreads (db w3) = agentThreads (db w2)"
          using bindMailbox_db(2) [OF bind] by simp
        with same t2 found1 show ?thesis by simp
      next
        case (Some m)
        with set same_thread have "find ?by_id (agentThreads (db w3))
            = Some (thread\<lparr>mailboxId := Some (mailbox_id m)\<rparr>)"
          using bindMailbox_db(2) [OF bind] found1 t2
          by (simp add: find_updated)
        moreover have "?switched (thread\<lparr>mailboxId := Some (mailbox_id m)\<rparr>)"
          using findMentionedMailbox_Some [OF Some] body eff key same_thread by blast
        ultimately show ?thesis using same by auto
      qed
    qed
  qed
  from assms(5) show ?thesis
  proof (cases rule: handleMessage_cases)
    case bot
    with start show ?thesis by auto
  next
    case (stop t w1 msg)
    from kept [OF recordMessage_db(1) [OF stop(3)] stop(2)] show ?thesis by auto
  next
    case (ask t w1 row w2 body)
    have "agentThreads (db w') = agentThreads (db w1)"
      using askWhichMailbox_db [OF ask(7)] recordMessage_db(1) [OF ask(3)] by simp
    from kept [OF this ask(2)] show ?thesis by auto
  next
    case (bind_failed t w1 row w2 body mb err)
    from routed [OF bind_failed(2,3,4,6,7) refl] show ?thesis .
  next
    case (job t w1 row w2 body mb w3)
    from routed [OF job(2,3,4,6,7) enqueueJob_db [OF job(8)]] show ?thesis .
  qed
qed

theorem handleMessage_bound_mailbox_witness:
  "find (\<lambda>x. thread_id x = 1)
     (agentThreads (db (snd (handleMessage ex_env ex_reply ex_selected ex_bound_world))))
   = Some \<lparr>thread_id = 1, slackChannel = ''C1'', threadTs = ''100'', mailboxId = Some 1\<rparr>"
proof -
  let ?thread = "\<lparr>thread_id = 1, slackChannel = ''C1'', threadTs = ''100'', mailboxId = Some 1\<rparr>"
  have "distinct (map thread_id (agentThreads (db ex_bound_world)))"
    "?thread \<in> set (agentThreads (db ex_bound_world))"
    "mailboxId ?thread = Some 1" "(1::nat) \<noteq> 0"
    by (simp_all add: ex_bound_world_def)
  from handleMessage_bound_mailbox [OF this surjective_pairing, of ex_env ex_reply ex_selected]
  show ?thesis
    by (auto simp: eval_defs ex_reply_def includes_str_sublist [symmetric])
qed

section \<open>Repeated deliveries\<close>

text \<open>
  C1. Let an event without bot marker and with a truthy text have been handled, and
  after it any deliveries whatever. Handling then an event of the same channel, thread
  root and timestamp returns normally and leaves the database as it is: no Thread and
  no Message is created. The calls of that run are at most the lookup of the Thread and
  the insert of the Message, which yields no row; no mailbox is resolved, nothing is
  posted and no job is enqueued.
\<close>

theorem handleMessage_redelivery:
  assumes "\<not> truthy_string (bot_id first)" "bot_profile first = None"
    and "truthy_string (event_text first)"
    and "channel again = channel first" "thread_root again = thread_root first"
      "ts again = ts first"
    and "now = handle_all ((en_first, first, info_first) # between) start"
  shows "\<exists>extra.
     handleMessage en_again again info_again now = (Inr (), now\<lparr>calls := calls now @ extra\<rparr>) \<and>
     (extra = []
      \<or> extra = [FindFirstThread (channel again) (thread_root again)]
      \<or> (\<exists>thread body.
            extra = [FindFirstThread (channel again) (thread_root again),
                     InsertMessage thread ''user'' body (channel again) (ts again)]))"
proof -
  from assms(1,2) have "\<not> bot_marker first"
    by (simp add: bot_marker_def)
  then have "recorded (channel first) (thread_root first) (ts first)
               (snd (handleMessage en_first first info_first start))"
    using assms(3) by (rule recorded_after) (rule surjective_pairing)
  then have "recorded (channel first) (thread_root first) (ts first) now"
    unfolding assms(7) handle_all.simps by (rule recorded_kept_all)
  then have "recorded (channel again) (thread_root again) (ts again) now"
    by (simp add: assms(4,5,6))
  then show ?thesis by (rule recorded_noop)
qed

theorem handleMessage_redelivery_witness:
  "fst (handleMessage ex_env ex_event ex_one_mailbox
          (handle_all [(ex_env, ex_event, ex_one_mailbox), (ex_env, ex_followup, ex_selected)]
             ex_world)) = Inr () \<and>
   db (snd (handleMessage ex_env ex_event ex_one_mailbox
          (handle_all [(ex_env, ex_event, ex_one_mailbox), (ex_env, ex_followup, ex_selected)]
             ex_world)))
   = db (handle_all [(ex_env, ex_event, ex_one_mailbox), (ex_env, ex_followup, ex_selected)]
           ex_world)"
proof -
  have "\<not> truthy_string (bot_id ex_event)" "bot_profile ex_event = None"
    "truthy_string (event_text ex_event)"
    by (simp_all add: ex_event_def truthy_string_def)
  from handleMessage_redelivery
    [where first = ex_event and again = ex_event and en_first = ex_env
       and info_first = ex_one_mailbox and between = "[(ex_env, ex_followup, ex_selected)]"
       and start = ex_world and en_again = ex_env and info_again = ex_one_mailbox,
     OF this refl refl refl refl]
  obtain extra where
    "handleMessage ex_env ex_event ex_one_mailbox
       (handle_all [(ex_env, ex_event, ex_one_mailbox), (ex_env, ex_followup, ex_selected)]
          ex_world)
     = (Inr (),
        (handle_all [(ex_env, ex_event, ex_one_mailbox), (ex_env, ex_followup, ex_selected)]
           ex_world)
        \<lparr>calls := calls (handle_all [(ex_env, ex_event, ex_one_mailbox),
                                   (ex_env, ex_followup, ex_selected)] ex_world) @ extra\<rparr>)"
    by blast
  then show ?thesis by simp
qed

end
